theory Spec2Isabelle
  imports Complex_Main
begin

section \<open>Numbers\<close>

text \<open>
  The engine computes with JavaScript numbers. Heights, offsets and paddings are modelled
  as exact rationals (no rounding), indices and the list length as integers. The single
  place where the code can leave the finite numbers is the division by \<open>length\<close> in
  \<open>calcPaddingBottom\<close>: for \<open>length = 0\<close> JavaScript yields \<open>NaN\<close> or an infinity, and
  that value can flow into \<open>paddingBottom\<close> only. The field \<open>paddingBottom\<close> therefore
  ranges over \<open>number\<close>, with the arithmetic and the comparison JavaScript applies.
\<close>

datatype number = Fin rat | PInf | NInf | NaN

text \<open>\<open>a / b\<close> for finite operands.\<close>

definition js_div :: "rat \<Rightarrow> rat \<Rightarrow> number" where
  "js_div a b =
     (if b \<noteq> 0 then Fin (a / b)
      else if a = 0 then NaN
      else if 0 < a then PInf else NInf)"

text \<open>\<open>a * y\<close> for a finite left operand.\<close>

fun js_times :: "rat \<Rightarrow> number \<Rightarrow> number" where
  "js_times a (Fin b) = Fin (a * b)"
| "js_times a PInf = (if a = 0 then NaN else if 0 < a then PInf else NInf)"
| "js_times a NInf = (if a = 0 then NaN else if 0 < a then NInf else PInf)"
| "js_times a NaN = NaN"

text \<open>\<open>x + b\<close> and \<open>x - b\<close> for a finite right operand.\<close>

fun js_plus :: "number \<Rightarrow> rat \<Rightarrow> number" where
  "js_plus (Fin a) b = Fin (a + b)"
| "js_plus x b = x"

fun js_minus :: "number \<Rightarrow> rat \<Rightarrow> number" where
  "js_minus (Fin a) b = Fin (a - b)"
| "js_minus x b = x"

text \<open>\<open>Math.max(0, x)\<close>.\<close>

fun js_max0 :: "number \<Rightarrow> number" where
  "js_max0 (Fin a) = Fin (max 0 a)"
| "js_max0 PInf = PInf"
| "js_max0 NInf = Fin 0"
| "js_max0 NaN = NaN"

text \<open>\<open>x < y\<close>: false as soon as one side is \<open>NaN\<close>.\<close>

fun js_less :: "number \<Rightarrow> number \<Rightarrow> bool" where
  "js_less (Fin a) (Fin b) = (a < b)"
| "js_less (Fin a) PInf = True"
| "js_less NInf (Fin b) = True"
| "js_less NInf PInf = True"
| "js_less x y = False"

text \<open>
  The rationals stand for the code's doubles, and the arithmetic of the model is exact.
  On whole numbers of magnitude at most \<open>2 ^ 51\<close> the doubles are exact as well: they
  represent every such number, and add and subtract two or three of them without rounding,
  so there the model computes the values the code computes. On fractions the code may
  round (\<open>0.1 + 0.2\<close> exceeds \<open>0.3\<close>). A statement that rests on an arithmetic identity,
  such as \<open>x - h + h = x\<close>, is therefore made for such whole numbers.
\<close>

definition safeWhole :: "rat \<Rightarrow> bool" where
  "safeWhole x = (of_int \<lfloor>x\<rfloor> = x \<and> \<bar>x\<bar> \<le> 2 ^ 51)"

section \<open>The windowing state\<close>

text \<open>
  The fields of class \<open>WindowedListState\<close>. The field \<open>length\<close> is \<open>length_st\<close> here.
  The subscriber set and the debounced \<open>handleChange\<close> are represented by
  \<open>notifications\<close>, the number of times \<open>handleChange\<close> has been called.
\<close>

record state =
  viewportHeight :: rat
  length_st :: int
  defaultHeight :: rat
  visibleIndexTop :: int
  visibleLength :: int
  paddingTop :: rat
  paddingBottom :: number
  scrollTop :: rat
  heights :: "int \<rightharpoonup> rat"
  totalHeight :: rat
  visibleIndicesCalculated :: bool
  notifications :: nat

type_synonym Option = "state \<Rightarrow> state"

definition defaultHeight_opt :: "rat \<Rightarrow> Option" where
  "defaultHeight_opt height = (\<lambda>s. s\<lparr>defaultHeight := height\<rparr>)"

definition scrollTop_opt :: "rat \<Rightarrow> Option" where
  "scrollTop_opt v = (\<lambda>s. s\<lparr>scrollTop := v\<rparr>)"

text \<open>
  The constructor: the three defaults, then the options in order, then every other field.
  Before the options run the remaining fields are not yet assigned in the source; they are
  all overwritten afterwards.
\<close>

definition new_state :: "Option list \<Rightarrow> state" where
  "new_state options =
     (let s0 = \<lparr> viewportHeight = 1, length_st = 0, defaultHeight = 0,
                 visibleIndexTop = 0, visibleLength = 0, paddingTop = 0,
                 paddingBottom = Fin 0, scrollTop = 0, heights = Map.empty,
                 totalHeight = 0, visibleIndicesCalculated = False, notifications = 0 \<rparr>;
          s1 = fold (\<lambda>fn s. fn s) options s0
      in s1\<lparr> visibleIndexTop := 0, visibleLength := 0, paddingTop := 0,
              paddingBottom := Fin 0, scrollTop := 0, heights := Map.empty,
              totalHeight := of_int (length_st s1) * defaultHeight s1,
              visibleIndicesCalculated := False, notifications := 0 \<rparr>)"

definition handleChange :: "state \<Rightarrow> state" where
  "handleChange s = s\<lparr>notifications := notifications s + 1\<rparr>"

section \<open>Item heights\<close>

definition getItemHeight :: "state \<Rightarrow> int \<Rightarrow> rat" where
  "getItemHeight s index =
     (if index > length_st s - 1 then 0
      else case heights s index of None \<Rightarrow> defaultHeight s | Some height \<Rightarrow> height)"

text \<open>
  The loop of \<open>getItemRangeHeight\<close>, with its counter \<open>i\<close> and its accumulator \<open>sum\<close>
  (here \<open>sumAcc\<close>).
\<close>

function rangeLoop :: "state \<Rightarrow> int \<Rightarrow> int \<Rightarrow> rat \<Rightarrow> rat" where
  "rangeLoop s i endIndex sumAcc =
     (if i \<le> endIndex then rangeLoop s (i + 1) endIndex (sumAcc + getItemHeight s i)
      else sumAcc)"
  by pat_completeness auto
termination
  by (relation "measure (\<lambda>(s, i, endIndex, sumAcc). nat (endIndex + 1 - i))") auto

declare rangeLoop.simps [simp del]

definition getItemRangeHeight :: "state \<Rightarrow> int \<Rightarrow> int \<Rightarrow> rat" where
  "getItemRangeHeight s startIndex endIndex = rangeLoop s startIndex endIndex 0"

section \<open>The loops of the window computation\<close>

text \<open>
  The forward walk of \<open>calculateVisibleIndices\<close> (from index 0) and of the scrolled-down
  branch of \<open>updateScrollPosition\<close> (from \<open>visibleIndexTop\<close>): the two loops have the same
  body and differ in their start values only.
\<close>

function walkDown :: "state \<Rightarrow> rat \<Rightarrow> int \<Rightarrow> int \<Rightarrow> rat \<Rightarrow> int \<times> rat" where
  "walkDown s target i vTop pTop =
     (if i < length_st s then
        (let height = getItemHeight s i in
         if pTop + height \<le> target then walkDown s target (i + 1) (vTop + 1) (pTop + height)
         else (vTop, pTop))
      else (vTop, pTop))"
  by pat_completeness auto
termination
  by (relation "measure (\<lambda>(s, target, i, vTop, pTop). nat (length_st s - i))") auto

declare walkDown.simps [simp del]

text \<open>The backward walk of the scrolled-up branch of \<open>updateScrollPosition\<close>.\<close>

function walkUp :: "state \<Rightarrow> rat \<Rightarrow> int \<Rightarrow> int \<Rightarrow> rat \<Rightarrow> int \<times> rat" where
  "walkUp s target i vTop pTop =
     (if i \<ge> 0 then
        (let height = getItemHeight s i in
         if pTop > target then walkUp s target (i - 1) (vTop - 1) (pTop - height)
         else (vTop, pTop))
      else (vTop, pTop))"
  by pat_completeness auto
termination
  by (relation "measure (\<lambda>(s, target, i, vTop, pTop). nat (i + 1))") auto

declare walkUp.simps [simp del]

text \<open>The loop of \<open>calcVisibleLength\<close>.\<close>

function visibleLoop :: "state \<Rightarrow> int \<Rightarrow> rat \<Rightarrow> int \<Rightarrow> int" where
  "visibleLoop s i visibleHeight vLength =
     (if i < length_st s then
        (if visibleHeight < viewportHeight s
         then visibleLoop s (i + 1) (visibleHeight + getItemHeight s i) (vLength + 1)
         else vLength)
      else vLength)"
  by pat_completeness auto
termination
  by (relation "measure (\<lambda>(s, i, visibleHeight, vLength). nat (length_st s - i))") auto

declare visibleLoop.simps [simp del]

definition calcVisibleLength :: "state \<Rightarrow> int" where
  "calcVisibleLength s =
     (let hiddenHeightTop = scrollTop s - paddingTop s
      in visibleLoop s (visibleIndexTop s) (hiddenHeightTop * (- 1)) 0)"

text \<open>
  The loop \<open>while (this.paddingTop > scrollTop) scrollTop++\<close> of \<open>updateHeightAtIndex\<close>.
  Over the rationals every step adds exactly 1 and the loop always ends; the code's loop
  adds 1 in doubles, which is exact (and ends) as long as \<open>scrollTop\<close> stays below \<open>2 ^ 53\<close>.
\<close>

function advanceScrollTop :: "rat \<Rightarrow> rat \<Rightarrow> rat" where
  "advanceScrollTop pTop sTop = (if pTop > sTop then advanceScrollTop pTop (sTop + 1) else sTop)"
  by pat_completeness auto
termination
proof (relation "measure (\<lambda>(pTop, sTop). nat \<lceil>pTop - sTop\<rceil>)")
  fix pTop sTop :: rat
  assume "sTop < pTop"
  then have "0 < \<lceil>pTop - sTop\<rceil>" by simp
  moreover have "\<lceil>pTop - (sTop + 1)\<rceil> = \<lceil>pTop - sTop\<rceil> - 1"
    by (simp add: diff_diff_eq [symmetric])
  ultimately show "((pTop, sTop + 1), (pTop, sTop)) \<in> measure (\<lambda>(pTop, sTop). nat \<lceil>pTop - sTop\<rceil>)"
    by simp
qed simp

declare advanceScrollTop.simps [simp del]

section \<open>The mutation operations\<close>

definition calculateVisibleIndices :: "state \<Rightarrow> state" where
  "calculateVisibleIndices s =
     (let s1 = (if scrollTop s = 0 then s\<lparr>visibleIndexTop := 0, paddingTop := 0\<rparr>
                else (case walkDown s (scrollTop s) 0 0 0 of
                        (vTop, pTop) \<Rightarrow> s\<lparr>visibleIndexTop := vTop, paddingTop := pTop\<rparr>));
          s2 = s1\<lparr>visibleLength := calcVisibleLength s1\<rparr>;
          visibleIndexBottom = visibleIndexTop s2 + visibleLength s2 - 1;
          s3 = s2\<lparr>paddingBottom :=
                    Fin (getItemRangeHeight s2 (visibleIndexBottom + 1) (length_st s2 - 1))\<rparr>;
          s4 = s3\<lparr>visibleIndicesCalculated := True\<rparr>
      in handleChange s4)"

definition calcPaddingBottom :: "state \<Rightarrow> int \<Rightarrow> int \<Rightarrow> number" where
  "calcPaddingBottom s visibleIndexBottom prevVisibleIndexBottom =
     (let pBottom =
            (if visibleIndexBottom = length_st s - 1 then Fin 0
             else if visibleIndexBottom < prevVisibleIndexBottom then
               js_plus (paddingBottom s)
                 (getItemRangeHeight s (visibleIndexBottom + 1) prevVisibleIndexBottom)
             else if visibleIndexBottom > prevVisibleIndexBottom then
               js_max0 (js_minus (paddingBottom s)
                 (getItemRangeHeight s prevVisibleIndexBottom (visibleIndexBottom - 1)))
             else paddingBottom s);
          nItemsScrollBottom = length_st s - visibleIndexBottom - 1;
          minPaddingBottom =
            js_times (of_int nItemsScrollBottom) (js_div (totalHeight s) (of_int (length_st s)))
      in if js_less pBottom minPaddingBottom then minPaddingBottom else pBottom)"

definition updateViewportHeight :: "rat \<Rightarrow> state \<Rightarrow> state" where
  "updateViewportHeight height s =
     (if height = viewportHeight s then s
      else
        (let s1 = s\<lparr>viewportHeight := height\<rparr>;
             prevVisibleLength = visibleLength s1;
             s2 = s1\<lparr>visibleLength := calcVisibleLength s1\<rparr>;
             prevVisibleIndexBottom = visibleIndexTop s2 + prevVisibleLength - 1;
             visibleIndexBottom = visibleIndexTop s2 + visibleLength s2 - 1;
             s3 = s2\<lparr>paddingBottom :=
                       calcPaddingBottom s2 visibleIndexBottom prevVisibleIndexBottom\<rparr>
         in handleChange s3))"

definition updateLength :: "int \<Rightarrow> state \<Rightarrow> state" where
  "updateLength l s =
     (if l = length_st s then s
      else
        (let prevLength = length_st s;
             s1 = s\<lparr>length_st := l\<rparr>;
             totalHeightDelta = of_int (l - prevLength) * defaultHeight s1;
             s2 = s1\<lparr>totalHeight := totalHeight s1 + totalHeightDelta\<rparr>
         in if l > prevLength then
              (let prevVisibleLength = visibleLength s2;
                   s3 = s2\<lparr>visibleLength := calcVisibleLength s2\<rparr>;
                   nNewVisible = visibleLength s3 - prevVisibleLength;
                   heightDelta = getItemRangeHeight s3 (prevLength + nNewVisible) (l - 1);
                   s4 = s3\<lparr>paddingBottom := js_plus (paddingBottom s3) heightDelta\<rparr>
               in handleChange s4)
            else calculateVisibleIndices s2))"

definition updateScrollPosition :: "rat \<Rightarrow> state \<Rightarrow> state" where
  "updateScrollPosition sTop s =
     (let prevScrollTop = scrollTop s;
          s1 = s\<lparr>scrollTop := sTop\<rparr>
      in if \<not> visibleIndicesCalculated s1 then calculateVisibleIndices s1
         else
           (let prevVisibleIndexTop = visibleIndexTop s1;
                prevVisibleLength = visibleLength s1;
                scrollTopDelta = sTop - prevScrollTop
            in if scrollTopDelta = 0 then s1
               else
                 (let s2 = (if scrollTopDelta < 0 then
                              (case walkUp s1 sTop (visibleIndexTop s1 - 1)
                                      (visibleIndexTop s1) (paddingTop s1) of
                                 (vTop, pTop) \<Rightarrow> s1\<lparr>visibleIndexTop := vTop, paddingTop := pTop\<rparr>)
                            else
                              (case walkDown s1 sTop (visibleIndexTop s1)
                                      (visibleIndexTop s1) (paddingTop s1) of
                                 (vTop, pTop) \<Rightarrow> s1\<lparr>visibleIndexTop := vTop, paddingTop := pTop\<rparr>));
                      s3 = s2\<lparr>visibleLength := calcVisibleLength s2\<rparr>;
                      prevVisibleIndexBottom = prevVisibleIndexTop + prevVisibleLength - 1;
                      visibleIndexBottom = visibleIndexTop s3 + visibleLength s3 - 1;
                      s4 = s3\<lparr>paddingBottom :=
                                calcPaddingBottom s3 visibleIndexBottom prevVisibleIndexBottom\<rparr>
                  in handleChange s4)))"

definition updateHeightAtIndex :: "int \<Rightarrow> rat \<Rightarrow> state \<Rightarrow> state" where
  "updateHeightAtIndex index height s =
     (let prevHeight = getItemHeight s index;
          prevVisibleIndexTop = visibleIndexTop s;
          prevVisibleLength = visibleLength s;
          prevVisibleIndexBottom = prevVisibleIndexTop + prevVisibleLength - 1;
          s1 = s\<lparr>heights := (heights s)(index \<mapsto> height)\<rparr>;
          s2 = s1\<lparr>totalHeight := totalHeight s1 - prevHeight + height\<rparr>
      in if index > prevVisibleIndexBottom then
           handleChange
             (s2\<lparr>paddingBottom := js_plus (js_minus (paddingBottom s2) prevHeight) height\<rparr>)
         else
           (let s3 = (if index < visibleIndexTop s2 then
                        (let s2' = s2\<lparr>paddingTop := paddingTop s2 - prevHeight + height\<rparr>
                         in s2'\<lparr>scrollTop := advanceScrollTop (paddingTop s2') (scrollTop s2')\<rparr>)
                      else s2);
                s4 = s3\<lparr>visibleLength := calcVisibleLength s3\<rparr>;
                visibleIndexBottom = visibleIndexTop s4 + visibleLength s4 - 1;
                s5 = s4\<lparr>paddingBottom :=
                          calcPaddingBottom s4 visibleIndexBottom prevVisibleIndexBottom\<rparr>
            in handleChange s5))"

section \<open>Sequences of mutations\<close>

datatype mutation =
    CalculateVisibleIndices
  | UpdateViewportHeight rat
  | UpdateLength int
  | UpdateScrollPosition rat
  | UpdateHeightAtIndex int rat

fun mutate :: "mutation \<Rightarrow> state \<Rightarrow> state" where
  "mutate CalculateVisibleIndices s = calculateVisibleIndices s"
| "mutate (UpdateViewportHeight height) s = updateViewportHeight height s"
| "mutate (UpdateLength l) s = updateLength l s"
| "mutate (UpdateScrollPosition sTop) s = updateScrollPosition sTop s"
| "mutate (UpdateHeightAtIndex index height) s = updateHeightAtIndex index height s"

text \<open>The four values the repository's \<open>testMutationSeries\<close> compares.\<close>

definition window :: "state \<Rightarrow> int \<times> int \<times> rat \<times> number" where
  "window s = (visibleIndexTop s, visibleLength s, paddingTop s, paddingBottom s)"

text \<open>
  \<open>runIncremental\<close> applies the mutations one after the other; \<open>runRecomputed\<close> applies
  the same mutations and calls \<open>calculateVisibleIndices\<close> after each of them, as
  \<open>testMutationSeries\<close> does with its second state.
\<close>

fun runIncremental :: "state \<Rightarrow> mutation list \<Rightarrow> state" where
  "runIncremental s [] = s"
| "runIncremental s (m # ms) = runIncremental (mutate m s) ms"

fun runRecomputed :: "state \<Rightarrow> mutation list \<Rightarrow> state" where
  "runRecomputed s [] = s"
| "runRecomputed s (m # ms) = runRecomputed (calculateVisibleIndices (mutate m s)) ms"

text \<open>
  The state the tests build: \<open>new State()\<close> followed by direct assignments to the public
  fields \<open>length\<close>, \<open>viewportHeight\<close>, \<open>defaultHeight\<close> and \<open>scrollTop\<close>.
\<close>

definition assigned :: "int \<Rightarrow> rat \<Rightarrow> rat \<Rightarrow> rat \<Rightarrow> state" where
  "assigned l vHeight dHeight sTop =
     (new_state [])\<lparr>length_st := l, viewportHeight := vHeight, defaultHeight := dHeight,
                     scrollTop := sTop\<rparr>"

section \<open>Notions used in the statements\<close>

text \<open>\<open>x >= b\<close> for a finite right operand: false for \<open>NaN\<close>.\<close>

fun js_ge :: "number \<Rightarrow> rat \<Rightarrow> bool" where
  "js_ge (Fin a) b = (b \<le> a)"
| "js_ge PInf b = True"
| "js_ge NInf b = False"
| "js_ge NaN b = False"

text \<open>
  The average-height floor of the data model's last invariant: the number of items below
  the window times \<open>totalHeight / length\<close>.
\<close>

definition averageFloor :: "state \<Rightarrow> rat" where
  "averageFloor s =
     of_int (length_st s - visibleIndexTop s - visibleLength s)
       * (totalHeight s / of_int (length_st s))"

text \<open>The window lies inside the list (inside the empty list when \<open>length\<close> is negative).\<close>

definition windowInside :: "state \<Rightarrow> bool" where
  "windowInside s =
     (0 \<le> visibleIndexTop s \<and> 0 \<le> visibleLength s \<and>
      visibleIndexTop s + visibleLength s \<le> max 0 (length_st s))"

section \<open>Lists without measured heights\<close>

text \<open>
  A list none of whose items has been measured: every item has the positive estimated
  height, the length is not negative, and \<open>totalHeight\<close> does not exceed
  \<open>length * defaultHeight\<close> (it equals it when the list was built through \<open>updateLength\<close>,
  and is 0 when \<open>length\<close> was assigned directly, as the tests do).
\<close>

definition unmeasured :: "state \<Rightarrow> bool" where
  "unmeasured s =
     (heights s = Map.empty \<and> 0 < defaultHeight s \<and> 0 \<le> length_st s \<and>
      totalHeight s \<le> of_int (length_st s) * defaultHeight s)"

text \<open>
  On such a list the full computation has a closed form: the first index whose item ends
  above the scroll offset, and the number of items needed to fill the viewport from there.
\<close>

definition topIndex :: "int \<Rightarrow> rat \<Rightarrow> rat \<Rightarrow> int" where
  "topIndex n d sTop = max 0 (min n \<lfloor>sTop / d\<rfloor>)"

definition visibleCount :: "int \<Rightarrow> rat \<Rightarrow> rat \<Rightarrow> rat \<Rightarrow> int \<Rightarrow> int" where
  "visibleCount n d vHeight sTop vTop =
     min (max 0 (n - vTop)) (max 0 \<lceil>(vHeight + (sTop - of_int vTop * d)) / d\<rceil>)"

text \<open>
  A state of such a list whose window fields are the ones of the closed form, after the
  first full computation.
\<close>

definition settled :: "state \<Rightarrow> bool" where
  "settled s =
     (unmeasured s \<and> visibleIndicesCalculated s \<and>
      visibleIndexTop s = topIndex (length_st s) (defaultHeight s) (scrollTop s) \<and>
      paddingTop s = of_int (visibleIndexTop s) * defaultHeight s \<and>
      visibleLength s =
        visibleCount (length_st s) (defaultHeight s) (viewportHeight s) (scrollTop s)
          (visibleIndexTop s) \<and>
      paddingBottom s =
        Fin (of_int (length_st s - visibleIndexTop s - visibleLength s) * defaultHeight s))"

text \<open>
  Such a list in whole pixels: the estimated height, the viewport height and the scroll
  offset are whole numbers, and the estimated height of the whole list is at most
  \<open>2 ^ 51\<close>.
\<close>

definition wholePixels :: "state \<Rightarrow> bool" where
  "wholePixels s =
     (safeWhole (defaultHeight s) \<and> safeWhole (viewportHeight s) \<and> safeWhole (scrollTop s) \<and>
      of_int (length_st s) * defaultHeight s \<le> 2 ^ 51)"

text \<open>
  The mutations considered on such a list: no height is measured, viewport heights and
  scroll offsets are whole numbers, the new length is not negative and keeps the estimated
  height of the list at most \<open>2 ^ 51\<close>, and the list grows only while the scroll offset
  lies before the end of the item that follows the list
  (\<open>scrollTop < (length + 1) * defaultHeight\<close>). A run is admissible when each mutation is,
  in the state it is applied to.
\<close>

fun admissible :: "state \<Rightarrow> mutation \<Rightarrow> bool" where
  "admissible s CalculateVisibleIndices = True"
| "admissible s (UpdateViewportHeight height) = safeWhole height"
| "admissible s (UpdateLength l) =
     (0 \<le> l \<and> of_int l * defaultHeight s \<le> 2 ^ 51 \<and>
      (l \<le> length_st s \<or> scrollTop s < of_int (length_st s + 1) * defaultHeight s))"
| "admissible s (UpdateScrollPosition sTop) = safeWhole sTop"
| "admissible s (UpdateHeightAtIndex index height) = False"

fun admissibleRun :: "state \<Rightarrow> mutation list \<Rightarrow> bool" where
  "admissibleRun s [] = True"
| "admissibleRun s (m # ms) = (admissible s m \<and> admissibleRun (mutate m s) ms)"

text \<open>The fields the closed form reads.\<close>

definition reads :: "state \<Rightarrow> int \<times> rat \<times> rat \<times> rat" where
  "reads s = (length_st s, viewportHeight s, defaultHeight s, scrollTop s)"

section \<open>Example lists\<close>

text \<open>
  Ten items of estimated height 10 in a viewport of 50, scrolled to 20, after the first
  full computation (the set-up of the test "padding reflects actual item heights").
\<close>

definition tenItems :: state where
  "tenItems = calculateVisibleIndices (assigned 10 50 10 20)"


definition thirtyItemsAt105 :: state where
  "thirtyItemsAt105 = calculateVisibleIndices (assigned 30 100 10 105)"

text \<open>
  Two items of estimated height 10 in a viewport of 10, built through the mutation
  interface only; the first item has been measured at 30, and the window has been
  recomputed in full.
\<close>

definition twoItemsMeasured :: state where
  "twoItemsMeasured =
     runIncremental (new_state [defaultHeight_opt 10])
       [UpdateViewportHeight 10, UpdateLength 2, UpdateHeightAtIndex 0 30,
        CalculateVisibleIndices]"

text \<open>
  Ten items of estimated height 10 in a viewport of 50, built through the mutation
  interface only, after the first full computation.
\<close>

definition tenItemsBuilt :: state where
  "tenItemsBuilt =
     runIncremental (new_state [defaultHeight_opt 10])
       [UpdateViewportHeight 50, UpdateLength 10, CalculateVisibleIndices]"

text \<open>Three items of estimated height 10, all of them inside a viewport of 50.\<close>

definition threeItems :: state where
  "threeItems =
     runIncremental (new_state [defaultHeight_opt 10])
       [UpdateViewportHeight 50, UpdateLength 3]"

section \<open>Facts about the loops\<close>

lemma rangeLoop_above_end: "endIndex < i \<Longrightarrow> rangeLoop s i endIndex sumAcc = sumAcc"
  by (simp add: rangeLoop.simps)

lemma rangeLoop_unmeasured:
  "heights s = Map.empty \<Longrightarrow> endIndex \<le> length_st s - 1 \<Longrightarrow>
   rangeLoop s i endIndex sumAcc = sumAcc + of_int (max 0 (endIndex + 1 - i)) * defaultHeight s"
proof (induction s i endIndex sumAcc rule: rangeLoop.induct)
  case (1 s i endIndex sumAcc)
  show ?case
  proof (cases "i \<le> endIndex")
    case True
    then have h: "getItemHeight s i = defaultHeight s"
      using "1.prems" by (simp add: getItemHeight_def)
    have "rangeLoop s i endIndex sumAcc = rangeLoop s (i + 1) endIndex (sumAcc + getItemHeight s i)"
      using True by (subst rangeLoop.simps) simp
    also have "\<dots> = sumAcc + getItemHeight s i
                     + of_int (max 0 (endIndex + 1 - (i + 1))) * defaultHeight s"
      using "1.IH" [OF True] "1.prems" by simp
    also have "\<dots> = sumAcc + of_int (max 0 (endIndex + 1 - i)) * defaultHeight s"
      using True by (simp add: h max_def algebra_simps)
    finally show ?thesis .
  next
    case False
    then show ?thesis by (simp add: rangeLoop.simps max_def)
  qed
qed

lemma advanceScrollTop_eq:
  "advanceScrollTop pTop sTop = (if pTop > sTop then sTop + of_int \<lceil>pTop - sTop\<rceil> else sTop)"
proof (induction pTop sTop rule: advanceScrollTop.induct)
  case (1 pTop sTop)
  show ?case
  proof (cases "pTop > sTop")
    case True
    have c: "\<lceil>pTop - (sTop + 1)\<rceil> = \<lceil>pTop - sTop\<rceil> - 1"
      by (simp add: diff_diff_eq [symmetric])
    have "advanceScrollTop pTop sTop = advanceScrollTop pTop (sTop + 1)"
      using True by (subst advanceScrollTop.simps) simp
    also have "\<dots> = (if pTop > sTop + 1 then sTop + 1 + of_int \<lceil>pTop - (sTop + 1)\<rceil>
                      else sTop + 1)"
      using "1.IH" [OF True] .
    also have "\<dots> = sTop + of_int \<lceil>pTop - sTop\<rceil>"
    proof (cases "pTop > sTop + 1")
      case True
      then show ?thesis by (simp add: c)
    next
      case False
      with \<open>pTop > sTop\<close> have "\<lceil>pTop - sTop\<rceil> = 1"
        by (simp add: ceiling_eq_iff)
      with False show ?thesis by simp
    qed
    finally show ?thesis using True by simp
  next
    case False
    then show ?thesis by (simp add: advanceScrollTop.simps)
  qed
qed

lemma visibleLoop_cong:
  assumes "length_st t = length_st s" and "viewportHeight t = viewportHeight s"
    and "\<And>j. getItemHeight t j = getItemHeight s j"
  shows "visibleLoop t i visibleHeight vLength = visibleLoop s i visibleHeight vLength"
  using assms
proof (induction s i visibleHeight vLength rule: visibleLoop.induct)
  case (1 s i visibleHeight vLength)
  show ?case
  proof (cases "i < length_st s \<and> visibleHeight < viewportHeight s")
    case True
    have "visibleLoop t i visibleHeight vLength =
            visibleLoop t (i + 1) (visibleHeight + getItemHeight s i) (vLength + 1)"
      using True "1.prems" by (subst visibleLoop.simps) simp
    also have "\<dots> = visibleLoop s (i + 1) (visibleHeight + getItemHeight s i) (vLength + 1)"
      using True "1.IH" "1.prems" by simp
    also have "\<dots> = visibleLoop s i visibleHeight vLength"
      using True by (subst (2) visibleLoop.simps) simp
    finally show ?thesis .
  next
    case False
    have "visibleLoop t i visibleHeight vLength = vLength"
      using False "1.prems" by (subst visibleLoop.simps) auto
    moreover have "visibleLoop s i visibleHeight vLength = vLength"
      using False by (subst visibleLoop.simps) auto
    ultimately show ?thesis by simp
  qed
qed

lemma getItemHeight_same_height:
  "getItemHeight (s\<lparr>heights := (heights s)(index \<mapsto> getItemHeight s index),
                     totalHeight := x\<rparr>) j = getItemHeight s j"
  by (auto simp: getItemHeight_def split: option.splits)

lemma calcVisibleLength_same_height:
  "calcVisibleLength (s\<lparr>heights := (heights s)(index \<mapsto> getItemHeight s index),
                         totalHeight := x\<rparr>) = calcVisibleLength s"
  unfolding calcVisibleLength_def Let_def
  using visibleLoop_cong [of "s\<lparr>heights := (heights s)(index \<mapsto> getItemHeight s index),
                                 totalHeight := x\<rparr>" s]
  by (simp add: getItemHeight_same_height)

lemma rangeLoop_cong:
  assumes "\<And>j. getItemHeight t j = getItemHeight s j"
  shows "rangeLoop t i endIndex sumAcc = rangeLoop s i endIndex sumAcc"
  using assms
proof (induction s i endIndex sumAcc rule: rangeLoop.induct)
  case (1 s i endIndex sumAcc)
  show ?case
  proof (cases "i \<le> endIndex")
    case True
    have "rangeLoop t i endIndex sumAcc = rangeLoop t (i + 1) endIndex (sumAcc + getItemHeight s i)"
      using True "1.prems" by (subst rangeLoop.simps) simp
    also have "\<dots> = rangeLoop s (i + 1) endIndex (sumAcc + getItemHeight s i)"
      using True "1.IH" "1.prems" by simp
    also have "\<dots> = rangeLoop s i endIndex sumAcc"
      using True by (subst (2) rangeLoop.simps) simp
    finally show ?thesis .
  next
    case False
    then show ?thesis by (simp add: rangeLoop.simps)
  qed
qed

lemma calcPaddingBottom_cong:
  assumes "paddingBottom t = paddingBottom s" and "length_st t = length_st s"
    and "totalHeight t = totalHeight s" and "\<And>j. getItemHeight t j = getItemHeight s j"
  shows "calcPaddingBottom t b prev = calcPaddingBottom s b prev"
  unfolding calcPaddingBottom_def Let_def getItemRangeHeight_def
  using assms(1-3) rangeLoop_cong [of t s, OF assms(4)] by simp



section \<open>The window stays inside the list\<close>

lemma visibleLoop_bounds:
  "vLength \<le> visibleLoop s i vh vLength \<and>
   visibleLoop s i vh vLength \<le> vLength + max 0 (length_st s - i)"
proof (induction s i vh vLength rule: visibleLoop.induct)
  case (1 s i visibleHeight vLength)
  show ?case
  proof (cases "i < length_st s \<and> visibleHeight < viewportHeight s")
    case True
    then have "visibleLoop s i visibleHeight vLength =
               visibleLoop s (i + 1) (visibleHeight + getItemHeight s i) (vLength + 1)"
      by (subst visibleLoop.simps) simp
    with "1.IH" True show ?thesis by (simp add: max_def split: if_splits)
  next
    case False
    then have "visibleLoop s i visibleHeight vLength = vLength"
      by (subst visibleLoop.simps) auto
    then show ?thesis by simp
  qed
qed

lemma calcVisibleLength_bounds:
  "0 \<le> calcVisibleLength s \<and>
   calcVisibleLength s \<le> max 0 (length_st s - visibleIndexTop s)"
  using visibleLoop_bounds [of 0 s "visibleIndexTop s"]
  by (simp add: calcVisibleLength_def Let_def)

lemma walkDown_bounds:
  "walkDown s target i vTop pTop = (v, p) \<Longrightarrow>
   vTop \<le> v \<and> v \<le> vTop + max 0 (length_st s - i)"
proof (induction s target i vTop pTop rule: walkDown.induct)
  case (1 s target i vTop pTop)
  show ?case
  proof (cases "i < length_st s \<and> pTop + getItemHeight s i \<le> target")
    case True
    then have "walkDown s target i vTop pTop =
               walkDown s target (i + 1) (vTop + 1) (pTop + getItemHeight s i)"
      by (subst walkDown.simps) (simp add: Let_def)
    with "1.prems" have "walkDown s target (i + 1) (vTop + 1) (pTop + getItemHeight s i) = (v, p)"
      by simp
    with "1.IH" [of "getItemHeight s i"] True show ?thesis
      by (simp add: max_def split: if_splits)
  next
    case False
    then have "walkDown s target i vTop pTop = (vTop, pTop)"
      by (subst walkDown.simps) (auto simp: Let_def)
    with "1.prems" show ?thesis by simp
  qed
qed

lemma walkUp_bounds:
  "walkUp s target i vTop pTop = (v, p) \<Longrightarrow>
   v \<le> vTop \<and> vTop - max 0 (i + 1) \<le> v"
proof (induction s target i vTop pTop rule: walkUp.induct)
  case (1 s target i vTop pTop)
  show ?case
  proof (cases "0 \<le> i \<and> target < pTop")
    case True
    then have "walkUp s target i vTop pTop =
               walkUp s target (i - 1) (vTop - 1) (pTop - getItemHeight s i)"
      by (subst walkUp.simps) (simp add: Let_def)
    with "1.prems" have "walkUp s target (i - 1) (vTop - 1) (pTop - getItemHeight s i) = (v, p)"
      by simp
    with "1.IH" [of "getItemHeight s i"] True show ?thesis
      by (simp add: max_def split: if_splits)
  next
    case False
    then have "walkUp s target i vTop pTop = (vTop, pTop)"
      by (subst walkUp.simps) (auto simp: Let_def)
    with "1.prems" show ?thesis by simp
  qed
qed

lemma windowInside_calcVisibleLength:
  "0 \<le> visibleIndexTop s \<Longrightarrow> visibleIndexTop s \<le> max 0 (length_st s) \<Longrightarrow>
   windowInside (s\<lparr>visibleLength := calcVisibleLength s\<rparr>)"
  using calcVisibleLength_bounds [of s] by (simp add: windowInside_def max_def split: if_splits)

lemma windowInside_calculateVisibleIndices: "windowInside (calculateVisibleIndices s)"
proof (cases "scrollTop s = 0")
  case True
  define s1 where "s1 = s\<lparr>visibleIndexTop := 0, paddingTop := 0\<rparr>"
  have "0 \<le> visibleIndexTop s1" "visibleIndexTop s1 \<le> max 0 (length_st s1)"
    by (simp_all add: s1_def)
  from windowInside_calcVisibleLength [OF this] True
  show ?thesis
    by (simp add: calculateVisibleIndices_def Let_def s1_def handleChange_def windowInside_def)
next
  case False
  obtain v p where w: "walkDown s (scrollTop s) 0 0 0 = (v, p)"
    by (cases "walkDown s (scrollTop s) 0 0 0")
  from walkDown_bounds [OF w] have b: "0 \<le> v" "v \<le> max 0 (length_st s)" by simp_all
  define s1 where "s1 = s\<lparr>visibleIndexTop := v, paddingTop := p\<rparr>"
  have "0 \<le> visibleIndexTop s1" "visibleIndexTop s1 \<le> max 0 (length_st s1)"
    using b by (simp_all add: s1_def)
  from windowInside_calcVisibleLength [OF this] False
  show ?thesis
    by (simp add: calculateVisibleIndices_def Let_def w s1_def handleChange_def windowInside_def)
qed

lemma windowInside_updateViewportHeight:
  "windowInside s \<Longrightarrow> windowInside (updateViewportHeight height s)"
proof -
  assume a: "windowInside s"
  then have "0 \<le> visibleIndexTop (s\<lparr>viewportHeight := height\<rparr>)"
    "visibleIndexTop (s\<lparr>viewportHeight := height\<rparr>) \<le> max 0 (length_st (s\<lparr>viewportHeight := height\<rparr>))"
    by (simp_all add: windowInside_def)
  from windowInside_calcVisibleLength [OF this] a
  show ?thesis
    by (simp add: updateViewportHeight_def Let_def handleChange_def windowInside_def)
qed

lemma windowInside_updateLength:
  "windowInside s \<Longrightarrow> windowInside (updateLength l s)"
proof -
  assume a: "windowInside s"
  show ?thesis
  proof (cases "l > length_st s")
    case True
    define s2 where "s2 = s\<lparr>length_st := l,
        totalHeight := totalHeight s + of_int (l - length_st s) * defaultHeight s\<rparr>"
    have "0 \<le> visibleIndexTop s2" "visibleIndexTop s2 \<le> max 0 (length_st s2)"
      using a True by (auto simp: s2_def windowInside_def max_def split: if_splits)
    from windowInside_calcVisibleLength [OF this] True
    show ?thesis
      by (simp add: updateLength_def Let_def handleChange_def windowInside_def s2_def)
  next
    case False
    then show ?thesis
      using a windowInside_calculateVisibleIndices
      by (simp add: updateLength_def Let_def)
  qed
qed

lemma windowInside_updateScrollPosition:
  "windowInside s \<Longrightarrow> windowInside (updateScrollPosition sTop s)"
proof -
  assume a: "windowInside s"
  define s1 where "s1 = s\<lparr>scrollTop := sTop\<rparr>"
  obtain vu pu where u: "walkUp s1 sTop (visibleIndexTop s1 - 1) (visibleIndexTop s1) (paddingTop s1) = (vu, pu)"
    by (cases "walkUp s1 sTop (visibleIndexTop s1 - 1) (visibleIndexTop s1) (paddingTop s1)")
  obtain vd pd where d: "walkDown s1 sTop (visibleIndexTop s1) (visibleIndexTop s1) (paddingTop s1) = (vd, pd)"
    by (cases "walkDown s1 sTop (visibleIndexTop s1) (visibleIndexTop s1) (paddingTop s1)")
  have i1: "0 \<le> visibleIndexTop s1" "visibleIndexTop s1 \<le> max 0 (length_st s1)"
    using a by (simp_all add: s1_def windowInside_def)
  from walkUp_bounds [OF u] i1 have bu: "0 \<le> vu" "vu \<le> max 0 (length_st s1)"
    by (simp_all add: max_def split: if_splits)
  from walkDown_bounds [OF d] i1 have bd: "0 \<le> vd" "vd \<le> max 0 (length_st s1)"
    by (simp_all add: max_def split: if_splits)
  define s2 where "s2 = (if sTop - scrollTop s < 0
     then s1\<lparr>visibleIndexTop := vu, paddingTop := pu\<rparr>
     else s1\<lparr>visibleIndexTop := vd, paddingTop := pd\<rparr>)"
  have "0 \<le> visibleIndexTop s2" "visibleIndexTop s2 \<le> max 0 (length_st s2)"
    using bu bd by (simp_all add: s2_def)
  from windowInside_calcVisibleLength [OF this]
  have w: "windowInside (s2\<lparr>visibleLength := calcVisibleLength s2\<rparr>)" .
  show ?thesis
  proof (cases "visibleIndicesCalculated s")
    case False
    then show ?thesis
      using windowInside_calculateVisibleIndices
      by (simp add: updateScrollPosition_def Let_def)
  next
    case True
    show ?thesis
    proof (cases "sTop - scrollTop s = 0")
      case True
      with a \<open>visibleIndicesCalculated s\<close> show ?thesis
        by (simp add: updateScrollPosition_def Let_def windowInside_def)
    next
      case False
      with w \<open>visibleIndicesCalculated s\<close> u d show ?thesis
        unfolding s1_def [symmetric]
        by (simp add: updateScrollPosition_def Let_def handleChange_def windowInside_def
            s2_def s1_def split: if_splits)
    qed
  qed
qed

lemma windowInside_updateHeightAtIndex:
  "windowInside s \<Longrightarrow> windowInside (updateHeightAtIndex index height s)"
proof -
  assume a: "windowInside s"
  define s2 where "s2 = s\<lparr>heights := (heights s)(index \<mapsto> height),
       totalHeight := totalHeight s - getItemHeight s index + height\<rparr>"
  define s3 where "s3 = (if index < visibleIndexTop s2 then
       s2\<lparr>paddingTop := paddingTop s2 - getItemHeight s index + height,
           scrollTop := advanceScrollTop (paddingTop s2 - getItemHeight s index + height) (scrollTop s2)\<rparr>
     else s2)"
  have "0 \<le> visibleIndexTop s3" "visibleIndexTop s3 \<le> max 0 (length_st s3)"
    using a by (simp_all add: s3_def s2_def windowInside_def)
  from windowInside_calcVisibleLength [OF this]
  have w: "windowInside (s3\<lparr>visibleLength := calcVisibleLength s3\<rparr>)" .
  show ?thesis
  proof (cases "index > visibleIndexTop s + visibleLength s - 1")
    case True
    with a show ?thesis
      by (simp add: updateHeightAtIndex_def Let_def handleChange_def windowInside_def)
  next
    case False
    with w show ?thesis
      by (simp add: updateHeightAtIndex_def Let_def handleChange_def windowInside_def
          s3_def s2_def split: if_splits)
  qed
qed

lemma windowInside_mutate: "windowInside s \<Longrightarrow> windowInside (mutate m s)"
  by (cases m)
    (simp_all add: windowInside_calculateVisibleIndices windowInside_updateViewportHeight
      windowInside_updateLength windowInside_updateScrollPosition
      windowInside_updateHeightAtIndex)

lemma windowInside_runIncremental:
  "windowInside s \<Longrightarrow> windowInside (runIncremental s ms)"
  by (induction ms arbitrary: s) (simp_all add: windowInside_mutate)

lemma windowInside_new_state: "windowInside (new_state options)"
  by (simp add: new_state_def Let_def windowInside_def)

section \<open>Facts about the bottom padding\<close>

lemma floor_applied:
  "x \<noteq> NaN \<Longrightarrow> js_ge (if js_less x (Fin m) then Fin m else x) m"
  by (cases x) simp_all

lemma js_plus_not_NaN: "x \<noteq> NaN \<Longrightarrow> js_plus x b \<noteq> NaN"
  by (cases x) simp_all

lemma js_max0_minus_not_NaN: "x \<noteq> NaN \<Longrightarrow> js_max0 (js_minus x b) \<noteq> NaN"
  by (cases x) simp_all

lemma calcPaddingBottom_floor:
  assumes "length_st s \<noteq> 0" and "paddingBottom s \<noteq> NaN"
  shows "js_ge (calcPaddingBottom s b prev)
           (of_int (length_st s - b - 1) * (totalHeight s / of_int (length_st s)))"
proof -
  define pBottom where "pBottom =
     (if b = length_st s - 1 then Fin 0
      else if b < prev then js_plus (paddingBottom s) (getItemRangeHeight s (b + 1) prev)
      else if b > prev then
        js_max0 (js_minus (paddingBottom s) (getItemRangeHeight s prev (b - 1)))
      else paddingBottom s)"
  define m where "m = of_int (length_st s - b - 1) * (totalHeight s / of_int (length_st s))"
  have n: "pBottom \<noteq> NaN"
    using assms(2) by (simp add: pBottom_def js_plus_not_NaN js_max0_minus_not_NaN)
  have "calcPaddingBottom s b prev = (if js_less pBottom (Fin m) then Fin m else pBottom)"
    using assms(1) unfolding calcPaddingBottom_def Let_def js_div_def pBottom_def m_def
    by simp
  then show ?thesis
    using floor_applied [OF n, of m] by (simp add: m_def)
qed

lemma calcPaddingBottom_at_end:
  "calcPaddingBottom s (length_st s - 1) prev = Fin 0"
  by (simp add: calcPaddingBottom_def Let_def js_div_def)

text \<open>
  The three operations that end in \<open>calcPaddingBottom\<close>: each of them returns a state
  \<open>t\<close>, with its bottom padding replaced by \<open>calcPaddingBottom t\<close> at the window's last
  index, where \<open>t\<close> has the length and the bottom padding of the state before.
\<close>

lemma updateViewportHeight_finish:
  assumes "height \<noteq> viewportHeight s"
  shows "\<exists>t prev. updateViewportHeight height s =
           handleChange (t\<lparr>paddingBottom :=
             calcPaddingBottom t (visibleIndexTop t + visibleLength t - 1) prev\<rparr>) \<and>
           length_st t = length_st s \<and> paddingBottom t = paddingBottom s \<and>
           totalHeight t = totalHeight s"
proof -
  let ?t = "s\<lparr>viewportHeight := height,
              visibleLength := calcVisibleLength (s\<lparr>viewportHeight := height\<rparr>)\<rparr>"
  show ?thesis
    using assms
    by (intro exI [of _ ?t] exI [of _ "visibleIndexTop s + visibleLength s - 1"])
      (simp add: updateViewportHeight_def Let_def)
qed

lemma updateScrollPosition_finish:
  assumes "visibleIndicesCalculated s" and "sTop \<noteq> scrollTop s"
  shows "\<exists>t prev. updateScrollPosition sTop s =
           handleChange (t\<lparr>paddingBottom :=
             calcPaddingBottom t (visibleIndexTop t + visibleLength t - 1) prev\<rparr>) \<and>
           length_st t = length_st s \<and> paddingBottom t = paddingBottom s \<and>
           totalHeight t = totalHeight s"
proof -
  define s1 where "s1 = s\<lparr>scrollTop := sTop\<rparr>"
  obtain v p where w:
    "(if sTop - scrollTop s < 0
      then walkUp s1 sTop (visibleIndexTop s1 - 1) (visibleIndexTop s1) (paddingTop s1)
      else walkDown s1 sTop (visibleIndexTop s1) (visibleIndexTop s1) (paddingTop s1)) = (v, p)"
    by (cases "if sTop - scrollTop s < 0
      then walkUp s1 sTop (visibleIndexTop s1 - 1) (visibleIndexTop s1) (paddingTop s1)
      else walkDown s1 sTop (visibleIndexTop s1) (visibleIndexTop s1) (paddingTop s1)")
  let ?s2 = "s1\<lparr>visibleIndexTop := v, paddingTop := p\<rparr>"
  let ?t = "?s2\<lparr>visibleLength := calcVisibleLength ?s2\<rparr>"
  have "updateScrollPosition sTop s =
          handleChange (?t\<lparr>paddingBottom :=
            calcPaddingBottom ?t (visibleIndexTop ?t + visibleLength ?t - 1)
              (visibleIndexTop s + visibleLength s - 1)\<rparr>)"
    using assms w
    by (cases "sTop - scrollTop s < 0")
      (simp_all add: updateScrollPosition_def Let_def s1_def)
  moreover have "length_st ?t = length_st s \<and> paddingBottom ?t = paddingBottom s \<and>
                 totalHeight ?t = totalHeight s"
    by (simp add: s1_def)
  ultimately show ?thesis by blast
qed

lemma updateHeightAtIndex_finish:
  assumes "index \<le> visibleIndexTop s + visibleLength s - 1"
  shows "\<exists>t prev. updateHeightAtIndex index height s =
           handleChange (t\<lparr>paddingBottom :=
             calcPaddingBottom t (visibleIndexTop t + visibleLength t - 1) prev\<rparr>) \<and>
           length_st t = length_st s \<and> paddingBottom t = paddingBottom s \<and>
           totalHeight t = totalHeight s - getItemHeight s index + height"
proof -
  define s2 where "s2 = s\<lparr>heights := (heights s)(index \<mapsto> height),
       totalHeight := totalHeight s - getItemHeight s index + height\<rparr>"
  define s3 where "s3 = (if index < visibleIndexTop s2 then
       s2\<lparr>paddingTop := paddingTop s2 - getItemHeight s index + height,
           scrollTop := advanceScrollTop (paddingTop s2 - getItemHeight s index + height)
                          (scrollTop s2)\<rparr>
     else s2)"
  let ?t = "s3\<lparr>visibleLength := calcVisibleLength s3\<rparr>"
  have "updateHeightAtIndex index height s =
          handleChange (?t\<lparr>paddingBottom :=
            calcPaddingBottom ?t (visibleIndexTop ?t + visibleLength ?t - 1)
              (visibleIndexTop s + visibleLength s - 1)\<rparr>)"
    using assms by (simp add: updateHeightAtIndex_def Let_def s3_def s2_def)
  moreover have "length_st ?t = length_st s \<and> paddingBottom ?t = paddingBottom s \<and>
                 totalHeight ?t = totalHeight s - getItemHeight s index + height"
    by (simp add: s3_def s2_def)
  ultimately show ?thesis by blast
qed

lemma finish_floor:
  assumes "length_st t \<noteq> 0" and "paddingBottom t \<noteq> NaN"
    and "s' = handleChange (t\<lparr>paddingBottom :=
               calcPaddingBottom t (visibleIndexTop t + visibleLength t - 1) prev\<rparr>)"
  shows "js_ge (paddingBottom s') (averageFloor s')"
  using calcPaddingBottom_floor [OF assms(1,2), of "visibleIndexTop t + visibleLength t - 1" prev]
  by (simp add: assms(3) handleChange_def averageFloor_def algebra_simps)

lemma finish_at_end:
  assumes "s' = handleChange (t\<lparr>paddingBottom :=
               calcPaddingBottom t (visibleIndexTop t + visibleLength t - 1) prev\<rparr>)"
    and "visibleIndexTop s' + visibleLength s' - 1 = length_st s' - 1"
  shows "paddingBottom s' = Fin 0"
proof -
  from assms have "visibleIndexTop t + visibleLength t - 1 = length_st t - 1"
    by (simp add: handleChange_def)
  then show ?thesis
    using calcPaddingBottom_at_end [of t prev] by (simp add: assms(1) handleChange_def)
qed

section \<open>The closed form on lists without measured heights\<close>

lemma getItemHeight_unmeasured:
  "unmeasured s \<Longrightarrow> i \<le> length_st s - 1 \<Longrightarrow> getItemHeight s i = defaultHeight s"
  by (simp add: unmeasured_def getItemHeight_def)

lemma le_floor_div: "0 < (d::rat) \<Longrightarrow> (of_int v * d \<le> x) = (v \<le> \<lfloor>x / d\<rfloor>)"
  by (simp add: le_floor_iff pos_le_divide_eq)

lemma walkDown_unmeasured:
  "unmeasured s \<Longrightarrow> vTop = i \<Longrightarrow> pTop = of_int i * defaultHeight s \<Longrightarrow>
   walkDown s target i vTop pTop =
     (max i (min (length_st s) \<lfloor>target / defaultHeight s\<rfloor>),
      of_int (max i (min (length_st s) \<lfloor>target / defaultHeight s\<rfloor>)) * defaultHeight s)"
proof (induction s target i vTop pTop rule: walkDown.induct)
  case (1 s target i vTop pTop)
  let ?d = "defaultHeight s"
  let ?a = "\<lfloor>target / ?d\<rfloor>"
  from "1.prems" have d: "0 < ?d" by (simp add: unmeasured_def)
  show ?case
  proof (cases "i < length_st s")
    case True
    then have h: "getItemHeight s i = ?d"
      using "1.prems" by (simp add: getItemHeight_unmeasured)
    have step: "pTop + ?d = of_int (i + 1) * ?d"
      using "1.prems" by (simp add: algebra_simps)
    show ?thesis
    proof (cases "pTop + ?d \<le> target")
      case le: True
      then have a: "i + 1 \<le> ?a"
        using le_floor_div [OF d, of "i + 1" target] step by simp
      have "walkDown s target i vTop pTop = walkDown s target (i + 1) (vTop + 1) (pTop + ?d)"
        using True le h by (subst walkDown.simps) (simp add: Let_def)
      also have "\<dots> = (max (i + 1) (min (length_st s) ?a),
                        of_int (max (i + 1) (min (length_st s) ?a)) * ?d)"
        using "1.IH" [OF True refl _ "1.prems"(1)] True le h "1.prems" step by simp
      also have "max (i + 1) (min (length_st s) ?a) = max i (min (length_st s) ?a)"
        using a True by simp
      finally show ?thesis .
    next
      case gt: False
      then have a: "?a < i + 1"
        using le_floor_div [OF d, of "i + 1" target] step by simp
      have "walkDown s target i vTop pTop = (vTop, pTop)"
        using True gt h by (subst walkDown.simps) (simp add: Let_def)
      moreover have "max i (min (length_st s) ?a) = i"
        using a by simp
      ultimately show ?thesis using "1.prems" by simp
    qed
  next
    case False
    then have "walkDown s target i vTop pTop = (vTop, pTop)"
      by (subst walkDown.simps) simp
    moreover have "max i (min (length_st s) ?a) = i"
      using False by simp
    ultimately show ?thesis using "1.prems" by simp
  qed
qed

lemma walkUp_unmeasured:
  "unmeasured s \<Longrightarrow> i = vTop - 1 \<Longrightarrow> pTop = of_int vTop * defaultHeight s \<Longrightarrow>
   0 \<le> vTop \<Longrightarrow> vTop \<le> length_st s \<Longrightarrow>
   walkUp s target i vTop pTop =
     (max 0 (min vTop \<lfloor>target / defaultHeight s\<rfloor>),
      of_int (max 0 (min vTop \<lfloor>target / defaultHeight s\<rfloor>)) * defaultHeight s)"
proof (induction s target i vTop pTop rule: walkUp.induct)
  case (1 s target i vTop pTop)
  let ?d = "defaultHeight s"
  let ?a = "\<lfloor>target / ?d\<rfloor>"
  from "1.prems" have d: "0 < ?d" by (simp add: unmeasured_def)
  show ?case
  proof (cases "0 \<le> i")
    case True
    then have h: "getItemHeight s i = ?d"
      using "1.prems" by (simp add: getItemHeight_unmeasured)
    have step: "pTop - ?d = of_int (vTop - 1) * ?d"
      using "1.prems" by (simp add: algebra_simps)
    show ?thesis
    proof (cases "pTop > target")
      case gt: True
      then have a: "?a < vTop"
        using le_floor_div [OF d, of vTop target] "1.prems" by simp
      have "walkUp s target i vTop pTop = walkUp s target (i - 1) (vTop - 1) (pTop - ?d)"
        using True gt h by (subst walkUp.simps) (simp add: Let_def)
      also have "\<dots> = (max 0 (min (vTop - 1) ?a), of_int (max 0 (min (vTop - 1) ?a)) * ?d)"
        using "1.IH" [OF True refl _ "1.prems"(1)] True gt h "1.prems" step by simp
      also have "max 0 (min (vTop - 1) ?a) = max 0 (min vTop ?a)"
        using a by simp
      finally show ?thesis .
    next
      case le: False
      then have a: "vTop \<le> ?a"
        using le_floor_div [OF d, of vTop target] "1.prems" by simp
      have "walkUp s target i vTop pTop = (vTop, pTop)"
        using True le h by (subst walkUp.simps) (simp add: Let_def)
      moreover have "max 0 (min vTop ?a) = vTop"
        using a "1.prems" by simp
      ultimately show ?thesis using "1.prems" by simp
    qed
  next
    case False
    then have "walkUp s target i vTop pTop = (vTop, pTop)"
      by (subst walkUp.simps) simp
    moreover have "max 0 (min vTop ?a) = vTop"
      using False "1.prems" by simp
    ultimately show ?thesis using "1.prems" by simp
  qed
qed

lemma visibleLoop_unmeasured:
  "unmeasured s \<Longrightarrow>
   visibleLoop s i visibleHeight vLength =
     vLength + min (max 0 (length_st s - i))
                   (max 0 \<lceil>(viewportHeight s - visibleHeight) / defaultHeight s\<rceil>)"
proof (induction s i visibleHeight vLength rule: visibleLoop.induct)
  case (1 s i visibleHeight vLength)
  let ?d = "defaultHeight s"
  let ?c = "\<lceil>(viewportHeight s - visibleHeight) / ?d\<rceil>"
  from "1.prems" have d: "0 < ?d" by (simp add: unmeasured_def)
  show ?case
  proof (cases "i < length_st s")
    case True
    then have h: "getItemHeight s i = ?d"
      using "1.prems" by (simp add: getItemHeight_unmeasured)
    show ?thesis
    proof (cases "visibleHeight < viewportHeight s")
      case lt: True
      then have "0 < (viewportHeight s - visibleHeight) / ?d"
        using d by simp
      then have c: "1 \<le> ?c" by (simp add: zero_less_ceiling [symmetric] del: zero_less_ceiling)
      have "(viewportHeight s - (visibleHeight + ?d)) / ?d
            = (viewportHeight s - visibleHeight) / ?d - 1"
        using d by (simp add: field_simps)
      then have c': "\<lceil>(viewportHeight s - (visibleHeight + ?d)) / ?d\<rceil> = ?c - 1"
        by simp
      have "visibleLoop s i visibleHeight vLength =
            visibleLoop s (i + 1) (visibleHeight + ?d) (vLength + 1)"
        using True lt h by (subst visibleLoop.simps) simp
      also have "\<dots> = vLength + 1 + min (max 0 (length_st s - (i + 1))) (max 0 (?c - 1))"
        using "1.IH" [OF True lt "1.prems"] h c' by simp
      also have "\<dots> = vLength + min (max 0 (length_st s - i)) (max 0 ?c)"
        using True c by simp
      finally show ?thesis .
    next
      case ge: False
      then have "(viewportHeight s - visibleHeight) / ?d \<le> 0"
        using d by (simp add: divide_le_0_iff)
      then have c: "?c \<le> 0" by (simp add: ceiling_le_zero)
      have "visibleLoop s i visibleHeight vLength = vLength"
        using ge by (subst visibleLoop.simps) simp
      then show ?thesis using c by simp
    qed
  next
    case False
    then have "visibleLoop s i visibleHeight vLength = vLength"
      by (subst visibleLoop.simps) simp
    then show ?thesis using False by simp
  qed
qed

lemma calcVisibleLength_unmeasured:
  "unmeasured s \<Longrightarrow> paddingTop s = of_int (visibleIndexTop s) * defaultHeight s \<Longrightarrow>
   calcVisibleLength s =
     visibleCount (length_st s) (defaultHeight s) (viewportHeight s) (scrollTop s)
       (visibleIndexTop s)"
  by (simp add: calcVisibleLength_def Let_def visibleLoop_unmeasured visibleCount_def)

lemma getItemRangeHeight_unmeasured:
  "unmeasured s \<Longrightarrow> endIndex \<le> length_st s - 1 \<Longrightarrow>
   getItemRangeHeight s startIndex endIndex
     = of_int (max 0 (endIndex + 1 - startIndex)) * defaultHeight s"
  by (simp add: getItemRangeHeight_def rangeLoop_unmeasured unmeasured_def)


lemma topIndex_bounds: "0 \<le> n \<Longrightarrow> 0 \<le> topIndex n d sTop \<and> topIndex n d sTop \<le> n"
  by (simp add: topIndex_def)

lemma visibleCount_bounds:
  "0 \<le> visibleCount n d vHeight sTop vTop \<and>
   visibleCount n d vHeight sTop vTop \<le> max 0 (n - vTop)"
  by (simp add: visibleCount_def)

lemma average_le_default:
  assumes "0 < n" and "t \<le> of_int n * d" and "0 \<le> k"
  shows "of_int k * (t / of_int n) \<le> of_int k * (d::rat)"
proof -
  have "t / of_int n \<le> d"
    using assms(1,2) by (simp add: pos_divide_le_eq mult.commute)
  then show ?thesis
    using assms(3) by (intro mult_left_mono) simp_all
qed

lemma calcPaddingBottom_unmeasured:
  assumes u: "unmeasured s"
    and p: "paddingBottom s = Fin (of_int (length_st s - 1 - prev) * defaultHeight s)"
    and prev: "prev \<le> length_st s - 1"
    and b: "- 1 \<le> b" "b \<le> length_st s - 1"
  shows "calcPaddingBottom s b prev = Fin (of_int (length_st s - 1 - b) * defaultHeight s)"
proof -
  let ?d = "defaultHeight s"
  let ?n = "length_st s"
  define pBottom where "pBottom =
     (if b = ?n - 1 then Fin 0
      else if b < prev then js_plus (paddingBottom s) (getItemRangeHeight s (b + 1) prev)
      else if b > prev then
        js_max0 (js_minus (paddingBottom s) (getItemRangeHeight s prev (b - 1)))
      else paddingBottom s)"
  have d: "0 < ?d" using u by (simp add: unmeasured_def)
  have pb: "pBottom = Fin (of_int (?n - 1 - b) * ?d)"
  proof -
    consider "b = ?n - 1" | "b \<noteq> ?n - 1" "b < prev" | "b \<noteq> ?n - 1" "prev < b"
      | "b \<noteq> ?n - 1" "b = prev"
      by linarith
    then show ?thesis
    proof cases
      case 1
      then show ?thesis by (simp add: pBottom_def)
    next
      case 2
      then show ?thesis
        using getItemRangeHeight_unmeasured [OF u prev, of "b + 1"] p
        by (simp add: pBottom_def algebra_simps)
    next
      case 3
      have "b - 1 \<le> ?n - 1" using b by simp
      from getItemRangeHeight_unmeasured [OF u this, of prev] 3
      have r: "getItemRangeHeight s prev (b - 1) = of_int (b - prev) * ?d"
        by simp
      have "0 \<le> of_int (?n - 1 - b) * ?d"
        using b d by simp
      moreover have "of_int (?n - 1 - prev) * ?d - of_int (b - prev) * ?d
                     = of_int (?n - 1 - b) * ?d"
        by (simp add: algebra_simps)
      ultimately show ?thesis
        using 3 p r by (simp add: pBottom_def)
    next
      case 4
      then show ?thesis using p by (simp add: pBottom_def)
    qed
  qed
  have nofloor: "\<not> js_less pBottom
          (js_times (of_int (?n - b - 1)) (js_div (totalHeight s) (of_int ?n)))"
  proof (cases "?n = 0")
    case True
    with b have "b = - 1" by simp
    with True show ?thesis
      by (simp add: js_div_def pb)
  next
    case False
    with u have n: "0 < ?n" by (simp add: unmeasured_def)
    have k: "0 \<le> ?n - b - 1" using b by simp
    have t: "totalHeight s \<le> of_int ?n * ?d" using u by (simp add: unmeasured_def)
    from average_le_default [OF n t k]
    show ?thesis
      using False by (simp add: js_div_def pb algebra_simps)
  qed
  have "calcPaddingBottom s b prev =
          (if js_less pBottom
                (js_times (of_int (?n - b - 1)) (js_div (totalHeight s) (of_int ?n)))
           then js_times (of_int (?n - b - 1)) (js_div (totalHeight s) (of_int ?n))
           else pBottom)"
    unfolding calcPaddingBottom_def Let_def pBottom_def by simp
  with nofloor pb show ?thesis by simp
qed


lemma settled_agree:
  "settled s \<Longrightarrow> settled t \<Longrightarrow> reads s = reads t \<Longrightarrow> window s = window t"
  by (simp add: settled_def window_def reads_def)

lemma settled_inside:
  assumes "settled s"
  shows "0 \<le> visibleIndexTop s" and "0 \<le> visibleLength s"
    and "visibleIndexTop s + visibleLength s \<le> length_st s"
proof -
  from assms have n: "0 \<le> length_st s" by (simp add: settled_def unmeasured_def)
  from assms topIndex_bounds [OF n]
  have v: "0 \<le> visibleIndexTop s" "visibleIndexTop s \<le> length_st s"
    by (simp_all add: settled_def)
  from assms visibleCount_bounds [of "length_st s" "defaultHeight s" "viewportHeight s"
      "scrollTop s" "visibleIndexTop s"]
  have c: "0 \<le> visibleLength s" "visibleLength s \<le> max 0 (length_st s - visibleIndexTop s)"
    by (simp_all add: settled_def)
  show "0 \<le> visibleIndexTop s" "0 \<le> visibleLength s" by fact+
  show "visibleIndexTop s + visibleLength s \<le> length_st s"
    using v c by simp
qed

lemma finish_settled:
  assumes u: "unmeasured t" and c: "visibleIndicesCalculated t"
    and v: "visibleIndexTop t = topIndex (length_st t) (defaultHeight t) (scrollTop t)"
    and pt: "paddingTop t = of_int (visibleIndexTop t) * defaultHeight t"
    and vl: "visibleLength t =
        visibleCount (length_st t) (defaultHeight t) (viewportHeight t) (scrollTop t)
          (visibleIndexTop t)"
    and pb: "paddingBottom t = Fin (of_int (length_st t - 1 - prev) * defaultHeight t)"
    and prev: "prev \<le> length_st t - 1"
  shows "settled (handleChange (t\<lparr>paddingBottom :=
           calcPaddingBottom t (visibleIndexTop t + visibleLength t - 1) prev\<rparr>))"
proof -
  from u have n: "0 \<le> length_st t" by (simp add: unmeasured_def)
  from topIndex_bounds [OF n] v
  have vb: "0 \<le> visibleIndexTop t" "visibleIndexTop t \<le> length_st t"
    by simp_all
  from visibleCount_bounds [of "length_st t" "defaultHeight t" "viewportHeight t"
      "scrollTop t" "visibleIndexTop t"] vl
  have cb: "0 \<le> visibleLength t" "visibleLength t \<le> max 0 (length_st t - visibleIndexTop t)"
    by simp_all
  have b: "- 1 \<le> visibleIndexTop t + visibleLength t - 1"
    "visibleIndexTop t + visibleLength t - 1 \<le> length_st t - 1"
    using vb cb by simp_all
  from calcPaddingBottom_unmeasured [OF u pb prev b]
  have "calcPaddingBottom t (visibleIndexTop t + visibleLength t - 1) prev =
          Fin (of_int (length_st t - visibleIndexTop t - visibleLength t) * defaultHeight t)"
    by (simp add: algebra_simps)
  then show ?thesis
    using u c v pt vl by (simp add: settled_def handleChange_def unmeasured_def)
qed

lemma settled_calculateVisibleIndices:
  assumes u: "unmeasured s"
  shows "settled (calculateVisibleIndices s)"
proof -
  let ?n = "length_st s" and ?d = "defaultHeight s"
  define v where "v = topIndex ?n ?d (scrollTop s)"
  define s1 where "s1 = s\<lparr>visibleIndexTop := v, paddingTop := of_int v * ?d\<rparr>"
  from u have n: "0 \<le> ?n" by (simp add: unmeasured_def)
  have top: "(if scrollTop s = 0 then s\<lparr>visibleIndexTop := 0, paddingTop := 0\<rparr>
              else (case walkDown s (scrollTop s) 0 0 0 of
                      (vTop, pTop) \<Rightarrow> s\<lparr>visibleIndexTop := vTop, paddingTop := pTop\<rparr>)) = s1"
  proof (cases "scrollTop s = 0")
    case True
    then have "v = 0" using n by (simp add: v_def topIndex_def)
    with True show ?thesis by (simp add: s1_def)
  next
    case False
    from walkDown_unmeasured [OF u refl, of 0 0 "scrollTop s"]
    have "walkDown s (scrollTop s) 0 0 0 = (v, of_int v * ?d)"
      by (simp add: v_def topIndex_def)
    with False show ?thesis by (simp add: s1_def)
  qed
  have u1: "unmeasured s1" using u by (simp add: s1_def unmeasured_def)
  define c where "c = visibleCount ?n ?d (viewportHeight s) (scrollTop s) v"
  from calcVisibleLength_unmeasured [OF u1] have cv: "calcVisibleLength s1 = c"
    by (simp add: s1_def c_def)
  define s2 where "s2 = s1\<lparr>visibleLength := c\<rparr>"
  have u2: "unmeasured s2" using u1 by (simp add: s2_def unmeasured_def)
  from topIndex_bounds [OF n] have vb: "0 \<le> v" "v \<le> ?n" by (simp_all add: v_def)
  from visibleCount_bounds [of ?n ?d "viewportHeight s" "scrollTop s" v]
  have cb: "0 \<le> c" "c \<le> max 0 (?n - v)" by (simp_all add: c_def)
  have "?n - 1 \<le> length_st s2 - 1" by (simp add: s2_def s1_def)
  from getItemRangeHeight_unmeasured [OF u2 this, of "v + c - 1 + 1"]
  have r: "getItemRangeHeight s2 (v + c - 1 + 1) (?n - 1) = of_int (?n - v - c) * ?d"
    using vb cb by (simp add: s2_def s1_def algebra_simps max_def)
  have "calculateVisibleIndices s =
          handleChange (s2\<lparr>paddingBottom := Fin (of_int (?n - v - c) * ?d),
                           visibleIndicesCalculated := True\<rparr>)"
    unfolding calculateVisibleIndices_def Let_def top cv
    using r by (simp add: s2_def s1_def)
  then show ?thesis
    using u by (simp add: settled_def handleChange_def unmeasured_def s2_def s1_def v_def c_def)
qed

lemma settled_updateViewportHeight:
  assumes s: "settled s"
  shows "settled (updateViewportHeight height s)"
proof (cases "height = viewportHeight s")
  case True
  with s show ?thesis by (simp add: updateViewportHeight_def)
next
  case False
  let ?n = "length_st s" and ?d = "defaultHeight s"
  define s1 where "s1 = s\<lparr>viewportHeight := height\<rparr>"
  have u1: "unmeasured s1" using s by (simp add: s1_def settled_def unmeasured_def)
  from calcVisibleLength_unmeasured [OF u1] s
  have cv: "calcVisibleLength s1 =
              visibleCount ?n ?d height (scrollTop s) (visibleIndexTop s)"
    by (simp add: s1_def settled_def)
  define t where "t = s1\<lparr>visibleLength := calcVisibleLength s1\<rparr>"
  have "settled (handleChange (t\<lparr>paddingBottom :=
           calcPaddingBottom t (visibleIndexTop t + visibleLength t - 1)
             (visibleIndexTop s + visibleLength s - 1)\<rparr>))"
  proof (rule finish_settled)
    show "unmeasured t" using u1 by (simp add: t_def unmeasured_def)
    show "visibleIndicesCalculated t" using s by (simp add: t_def s1_def settled_def)
    show "visibleIndexTop t = topIndex (length_st t) (defaultHeight t) (scrollTop t)"
      using s by (simp add: t_def s1_def settled_def)
    show "paddingTop t = of_int (visibleIndexTop t) * defaultHeight t"
      using s by (simp add: t_def s1_def settled_def)
    show "visibleLength t =
        visibleCount (length_st t) (defaultHeight t) (viewportHeight t) (scrollTop t)
          (visibleIndexTop t)"
      using cv by (simp add: t_def s1_def)
    show "paddingBottom t =
            Fin (of_int (length_st t - 1 - (visibleIndexTop s + visibleLength s - 1))
                 * defaultHeight t)"
      using s by (simp add: t_def s1_def settled_def algebra_simps)
    show "visibleIndexTop s + visibleLength s - 1 \<le> length_st t - 1"
      using settled_inside [OF s] by (simp add: t_def s1_def)
  qed
  moreover have "updateViewportHeight height s =
      handleChange (t\<lparr>paddingBottom :=
           calcPaddingBottom t (visibleIndexTop t + visibleLength t - 1)
             (visibleIndexTop s + visibleLength s - 1)\<rparr>)"
    using False by (simp add: updateViewportHeight_def Let_def t_def s1_def)
  ultimately show ?thesis by simp
qed


lemma topIndex_grow:
  assumes "0 < (d::rat)" and "0 \<le> n" and "n \<le> l" and "sTop < of_int (n + 1) * d"
  shows "topIndex l d sTop = topIndex n d sTop"
proof -
  have "\<not> (of_int (n + 1) * d \<le> sTop)" using assms(4) by simp
  then have "\<lfloor>sTop / d\<rfloor> \<le> n"
    using le_floor_div [OF assms(1), of "n + 1" sTop] by simp
  then show ?thesis using assms(3) by (simp add: topIndex_def)
qed

lemma min_max_grow:
  "(n::int) \<le> l \<Longrightarrow>
   min (max 0 (n - v)) c \<le> min (max 0 (l - v)) c \<and>
   min (max 0 (l - v)) c - min (max 0 (n - v)) c \<le> l - n"
  by linarith

lemma visibleCount_grow:
  assumes "n \<le> l"
  shows "visibleCount n d vHeight sTop vTop \<le> visibleCount l d vHeight sTop vTop"
    and "visibleCount l d vHeight sTop vTop - visibleCount n d vHeight sTop vTop \<le> l - n"
  using min_max_grow [OF assms] unfolding visibleCount_def by blast+

lemma settled_updateLength:
  assumes s: "settled s" and a: "admissible s (UpdateLength l)"
  shows "settled (updateLength l s)"
proof -
  let ?n = "length_st s" and ?d = "defaultHeight s"
  define s2 where "s2 = s\<lparr>length_st := l,
      totalHeight := totalHeight s + of_int (l - ?n) * ?d\<rparr>"
  from s have u: "unmeasured s" by (simp add: settled_def)
  from a have l: "0 \<le> l" by simp
  have u2: "unmeasured s2"
    using u l by (simp add: s2_def unmeasured_def algebra_simps)
  consider "l = ?n" | "l < ?n" | "?n < l" by linarith
  then show ?thesis
  proof cases
    case 1
    with s show ?thesis by (simp add: updateLength_def)
  next
    case 2
    then have "updateLength l s = calculateVisibleIndices s2"
      by (simp add: updateLength_def Let_def s2_def)
    with settled_calculateVisibleIndices [OF u2] show ?thesis by simp
  next
    case 3
    with a have st: "scrollTop s < of_int (?n + 1) * ?d" by simp
    from u have d: "0 < ?d" and n: "0 \<le> ?n" by (simp_all add: unmeasured_def)
    let ?v = "visibleIndexTop s"
    define c where "c = visibleCount l ?d (viewportHeight s) (scrollTop s) ?v"
    from calcVisibleLength_unmeasured [OF u2] s
    have cv: "calcVisibleLength s2 = c"
      by (simp add: s2_def settled_def c_def)
    have vl: "visibleLength s = visibleCount ?n ?d (viewportHeight s) (scrollTop s) ?v"
      using s by (simp add: settled_def)
    from 3 have nl: "?n \<le> l" by simp
    from visibleCount_grow [OF nl, of ?d "viewportHeight s" "scrollTop s" ?v] vl
    have g: "visibleLength s \<le> c" "c - visibleLength s \<le> l - ?n"
      by (simp_all add: c_def)
    define s3 where "s3 = s2\<lparr>visibleLength := calcVisibleLength s2\<rparr>"
    have vl3: "visibleLength s3 = c" by (simp add: s3_def cv)
    have u3: "unmeasured s3" using u2 by (simp add: s3_def unmeasured_def)
    have "l - 1 \<le> length_st s3 - 1" by (simp add: s3_def s2_def)
    from getItemRangeHeight_unmeasured [OF u3 this, of "?n + (c - visibleLength s)"]
    have r: "getItemRangeHeight s3 (?n + (c - visibleLength s)) (l - 1)
               = of_int (l - ?n - (c - visibleLength s)) * ?d"
      using g by (simp add: s3_def s2_def max_def)
    have pb: "paddingBottom s = Fin (of_int (?n - ?v - visibleLength s) * ?d)"
      using s by (simp add: settled_def)
    have j: "js_plus (paddingBottom s) (of_int (l - ?n - (c - visibleLength s)) * ?d)
            = Fin (of_int (l - ?v - c) * ?d)"
      by (simp add: pb algebra_simps)
    have eq: "updateLength l s =
        handleChange (s3\<lparr>paddingBottom := js_plus (paddingBottom s)
          (getItemRangeHeight s3 (?n + (visibleLength s3 - visibleLength s)) (l - 1))\<rparr>)"
      using 3 by (simp add: updateLength_def Let_def s3_def s2_def)
    have top: "?v = topIndex l ?d (scrollTop s)"
      using topIndex_grow [OF d n nl st] s by (simp add: settled_def)
    have f: "visibleIndexTop s3 = ?v" "length_st s3 = l" "defaultHeight s3 = ?d"
      "scrollTop s3 = scrollTop s" "viewportHeight s3 = viewportHeight s"
      "paddingTop s3 = paddingTop s" "visibleIndicesCalculated s3 = visibleIndicesCalculated s"
      by (simp_all add: s3_def s2_def)
    show ?thesis
      unfolding eq vl3 r j
      using s u3 top [symmetric] vl3 f
      by (simp add: settled_def handleChange_def c_def unmeasured_def)
  qed
qed

lemma walk_up_index:
  "(a'::int) \<le> a \<Longrightarrow> 0 \<le> n \<Longrightarrow> max 0 (min (max 0 (min n a)) a') = max 0 (min n a')"
  by (simp add: min_def max_def)

lemma walk_down_index:
  "(a::int) \<le> a' \<Longrightarrow> 0 \<le> n \<Longrightarrow> max (max 0 (min n a)) (min n a') = max 0 (min n a')"
  by (simp add: min_def max_def)

lemma floor_div_mono: "0 < (d::rat) \<Longrightarrow> x \<le> y \<Longrightarrow> \<lfloor>x / d\<rfloor> \<le> \<lfloor>y / d\<rfloor>"
  by (simp add: floor_mono divide_right_mono)

lemma settled_updateScrollPosition:
  assumes s: "settled s"
  shows "settled (updateScrollPosition sTop s)"
proof (cases "sTop = scrollTop s")
  case True
  with s show ?thesis by (simp add: updateScrollPosition_def Let_def settled_def)
next
  case False
  let ?n = "length_st s" and ?d = "defaultHeight s"
  let ?v = "visibleIndexTop s"
  from s have u: "unmeasured s" and calc: "visibleIndicesCalculated s"
    by (simp_all add: settled_def)
  from u have d: "0 < ?d" and n: "0 \<le> ?n" by (simp_all add: unmeasured_def)
  define s1 where "s1 = s\<lparr>scrollTop := sTop\<rparr>"
  have u1: "unmeasured s1" using u by (simp add: s1_def unmeasured_def)
  define v where "v = topIndex ?n ?d sTop"
  have vdef: "?v = max 0 (min ?n \<lfloor>scrollTop s / ?d\<rfloor>)"
    using s by (simp add: settled_def topIndex_def)
  have pt: "paddingTop s = of_int ?v * ?d" using s by (simp add: settled_def)
  from settled_inside [OF s] have vb: "0 \<le> ?v" "?v \<le> ?n" by simp_all
  define s2 where "s2 = s1\<lparr>visibleIndexTop := v, paddingTop := of_int v * ?d\<rparr>"
  have walk: "(if sTop - scrollTop s < 0 then
                 (case walkUp s1 sTop (visibleIndexTop s1 - 1) (visibleIndexTop s1)
                         (paddingTop s1) of
                    (vTop, pTop) \<Rightarrow> s1\<lparr>visibleIndexTop := vTop, paddingTop := pTop\<rparr>)
               else
                 (case walkDown s1 sTop (visibleIndexTop s1) (visibleIndexTop s1)
                         (paddingTop s1) of
                    (vTop, pTop) \<Rightarrow> s1\<lparr>visibleIndexTop := vTop, paddingTop := pTop\<rparr>)) = s2"
  proof (cases "sTop < scrollTop s")
    case True
    then have m: "\<lfloor>sTop / ?d\<rfloor> \<le> \<lfloor>scrollTop s / ?d\<rfloor>"
      using floor_div_mono [OF d, of sTop "scrollTop s"] by simp
    from walkUp_unmeasured [OF u1, of "?v - 1" ?v "paddingTop s" sTop] pt vb
    have "walkUp s1 sTop (?v - 1) ?v (paddingTop s)
            = (max 0 (min ?v \<lfloor>sTop / ?d\<rfloor>), of_int (max 0 (min ?v \<lfloor>sTop / ?d\<rfloor>)) * ?d)"
      by (simp add: s1_def)
    moreover have "max 0 (min ?v \<lfloor>sTop / ?d\<rfloor>) = v"
      unfolding vdef v_def topIndex_def using m n by (rule walk_up_index)
    ultimately show ?thesis using True by (simp add: s1_def s2_def)
  next
    case ge: False
    with False have m: "\<lfloor>scrollTop s / ?d\<rfloor> \<le> \<lfloor>sTop / ?d\<rfloor>"
      using floor_div_mono [OF d, of "scrollTop s" sTop] by simp
    from walkDown_unmeasured [OF u1, of ?v ?v "paddingTop s" sTop] pt
    have "walkDown s1 sTop ?v ?v (paddingTop s)
            = (max ?v (min ?n \<lfloor>sTop / ?d\<rfloor>), of_int (max ?v (min ?n \<lfloor>sTop / ?d\<rfloor>)) * ?d)"
      by (simp add: s1_def)
    moreover have "max ?v (min ?n \<lfloor>sTop / ?d\<rfloor>) = v"
      unfolding vdef v_def topIndex_def using m n by (rule walk_down_index)
    ultimately show ?thesis using ge by (simp add: s1_def s2_def)
  qed
  have u2: "unmeasured s2" using u1 by (simp add: s2_def unmeasured_def)
  from calcVisibleLength_unmeasured [OF u2]
  have cv: "calcVisibleLength s2 = visibleCount ?n ?d (viewportHeight s) sTop v"
    by (simp add: s2_def s1_def)
  define t where "t = s2\<lparr>visibleLength := calcVisibleLength s2\<rparr>"
  have "settled (handleChange (t\<lparr>paddingBottom :=
           calcPaddingBottom t (visibleIndexTop t + visibleLength t - 1)
             (?v + visibleLength s - 1)\<rparr>))"
  proof (rule finish_settled)
    show "unmeasured t" using u2 by (simp add: t_def unmeasured_def)
    show "visibleIndicesCalculated t" using calc by (simp add: t_def s2_def s1_def)
    show "visibleIndexTop t = topIndex (length_st t) (defaultHeight t) (scrollTop t)"
      by (simp add: t_def s2_def s1_def v_def)
    show "paddingTop t = of_int (visibleIndexTop t) * defaultHeight t"
      by (simp add: t_def s2_def s1_def)
    show "visibleLength t =
        visibleCount (length_st t) (defaultHeight t) (viewportHeight t) (scrollTop t)
          (visibleIndexTop t)"
      using cv by (simp add: t_def s2_def s1_def)
    show "paddingBottom t =
            Fin (of_int (length_st t - 1 - (?v + visibleLength s - 1)) * defaultHeight t)"
      using s by (simp add: t_def s2_def s1_def settled_def algebra_simps)
    show "?v + visibleLength s - 1 \<le> length_st t - 1"
      using settled_inside [OF s] by (simp add: t_def s2_def s1_def)
  qed
  moreover have "updateScrollPosition sTop s =
      handleChange (t\<lparr>paddingBottom :=
           calcPaddingBottom t (visibleIndexTop t + visibleLength t - 1)
             (?v + visibleLength s - 1)\<rparr>)"
    using False calc walk
    unfolding updateScrollPosition_def Let_def s1_def [symmetric]
    by (simp add: t_def s1_def)
  ultimately show ?thesis by simp
qed

lemma settled_mutate: "settled s \<Longrightarrow> admissible s m \<Longrightarrow> settled (mutate m s)"
proof (cases m)
  case CalculateVisibleIndices
  assume "settled s"
  then have "unmeasured s" by (simp add: settled_def)
  with CalculateVisibleIndices show ?thesis
    by (simp add: settled_calculateVisibleIndices)
qed (simp_all add: settled_updateViewportHeight settled_updateLength
      settled_updateScrollPosition)

lemma reads_calculateVisibleIndices: "reads (calculateVisibleIndices s) = reads s"
  by (simp add: reads_def calculateVisibleIndices_def Let_def handleChange_def
      split: prod.splits)

lemma reads_updateViewportHeight:
  "reads (updateViewportHeight height s) = (length_st s, height, defaultHeight s, scrollTop s)"
  by (simp add: reads_def updateViewportHeight_def Let_def handleChange_def)

lemma reads_updateLength:
  "reads (updateLength l s) = (l, viewportHeight s, defaultHeight s, scrollTop s)"
proof (cases "l > length_st s")
  case True
  then show ?thesis
    by (simp add: reads_def updateLength_def Let_def handleChange_def)
next
  case False
  show ?thesis
  proof (cases "l = length_st s")
    case True
    then show ?thesis by (simp add: reads_def updateLength_def)
  next
    case ne: False
    with False have "updateLength l s = calculateVisibleIndices
        (s\<lparr>length_st := l,
           totalHeight := totalHeight s + of_int (l - length_st s) * defaultHeight s\<rparr>)"
      by (simp add: updateLength_def Let_def)
    then show ?thesis
      by (simp add: reads_calculateVisibleIndices) (simp add: reads_def)
  qed
qed

lemma reads_updateScrollPosition:
  "reads (updateScrollPosition sTop s) = (length_st s, viewportHeight s, defaultHeight s, sTop)"
proof (cases "visibleIndicesCalculated s")
  case False
  then have "updateScrollPosition sTop s = calculateVisibleIndices (s\<lparr>scrollTop := sTop\<rparr>)"
    by (simp add: updateScrollPosition_def Let_def)
  then show ?thesis
    by (simp add: reads_calculateVisibleIndices) (simp add: reads_def)
next
  case True
  show ?thesis
  proof (cases "sTop = scrollTop s")
    case eq: True
    with True show ?thesis by (simp add: updateScrollPosition_def Let_def reads_def)
  next
    case False
    define s1 where "s1 = s\<lparr>scrollTop := sTop\<rparr>"
    obtain v p where w:
      "(if sTop - scrollTop s < 0
        then walkUp s1 sTop (visibleIndexTop s1 - 1) (visibleIndexTop s1) (paddingTop s1)
        else walkDown s1 sTop (visibleIndexTop s1) (visibleIndexTop s1) (paddingTop s1)) = (v, p)"
      by (cases "if sTop - scrollTop s < 0
        then walkUp s1 sTop (visibleIndexTop s1 - 1) (visibleIndexTop s1) (paddingTop s1)
        else walkDown s1 sTop (visibleIndexTop s1) (visibleIndexTop s1) (paddingTop s1)")
    let ?s2 = "s1\<lparr>visibleIndexTop := v, paddingTop := p\<rparr>"
    let ?t = "?s2\<lparr>visibleLength := calcVisibleLength ?s2\<rparr>"
    have "updateScrollPosition sTop s =
            handleChange (?t\<lparr>paddingBottom :=
              calcPaddingBottom ?t (visibleIndexTop ?t + visibleLength ?t - 1)
                (visibleIndexTop s + visibleLength s - 1)\<rparr>)"
      using True False w
      by (cases "sTop - scrollTop s < 0")
        (simp_all add: updateScrollPosition_def Let_def s1_def)
    then show ?thesis
      by (simp add: reads_def handleChange_def s1_def)
  qed
qed

lemma reads_mutate:
  assumes "reads s = reads t" and "admissible s m"
  shows "reads (mutate m s) = reads (mutate m t)"
proof (cases m)
  case CalculateVisibleIndices
  with assms show ?thesis by (simp add: reads_calculateVisibleIndices)
next
  case (UpdateViewportHeight h)
  with assms show ?thesis by (simp add: reads_updateViewportHeight) (simp add: reads_def)
next
  case (UpdateLength l)
  with assms show ?thesis by (simp add: reads_updateLength) (simp add: reads_def)
next
  case (UpdateScrollPosition sTop)
  with assms show ?thesis by (simp add: reads_updateScrollPosition) (simp add: reads_def)
next
  case (UpdateHeightAtIndex i h)
  with assms show ?thesis by simp
qed


lemma admissible_reads: "reads s = reads t \<Longrightarrow> admissible s m = admissible t m"
  by (cases m) (simp_all add: reads_def)



lemma runs_agree:
  "settled s \<Longrightarrow> settled t \<Longrightarrow> reads s = reads t \<Longrightarrow> admissibleRun s ms \<Longrightarrow>
   window (runIncremental s ms) = window (runRecomputed t ms)"
proof (induction ms arbitrary: s t)
  case Nil
  from settled_agree [OF Nil.prems(1,2,3)] show ?case by simp
next
  case (Cons m ms)
  from Cons.prems have a: "admissible s m" "admissibleRun (mutate m s) ms" by simp_all
  from admissible_reads [OF Cons.prems(3), of m] a(1) have a': "admissible t m" by simp
  have s': "settled (mutate m s)" using Cons.prems(1) a(1) by (rule settled_mutate)
  have t0: "settled (mutate m t)" using Cons.prems(2) a' by (rule settled_mutate)
  then have "unmeasured (mutate m t)" by (simp add: settled_def)
  then have t': "settled (calculateVisibleIndices (mutate m t))"
    by (rule settled_calculateVisibleIndices)
  have "reads (mutate m s) = reads (mutate m t)"
    using Cons.prems(3) a(1) by (rule reads_mutate)
  then have r: "reads (mutate m s) = reads (calculateVisibleIndices (mutate m t))"
    by (simp add: reads_calculateVisibleIndices)
  have "window (runIncremental (mutate m s) ms)
          = window (runRecomputed (calculateVisibleIndices (mutate m t)) ms)"
    using s' t' r a(2) by (rule Cons.IH)
  then show ?case by simp
qed

lemmas evaluation =
  assigned_def new_state_def calculateVisibleIndices_def Let_def calcVisibleLength_def
  walkDown.simps walkUp.simps visibleLoop.simps rangeLoop.simps advanceScrollTop.simps
  getItemHeight_def getItemRangeHeight_def handleChange_def window_def calcPaddingBottom_def
  updateViewportHeight_def updateLength_def updateScrollPosition_def updateHeightAtIndex_def
  defaultHeight_opt_def scrollTop_opt_def js_div_def averageFloor_def

section \<open>The example lists, evaluated\<close>

lemma tenItems_eq:
  "tenItems = \<lparr> viewportHeight = 50, length_st = 10, defaultHeight = 10,
                visibleIndexTop = 2, visibleLength = 5, paddingTop = 20,
                paddingBottom = Fin 30, scrollTop = 20, heights = Map.empty,
                totalHeight = 0, visibleIndicesCalculated = True, notifications = 1 \<rparr>"
  by (simp add: tenItems_def evaluation)


lemma thirtyItemsAt105_eq:
  "thirtyItemsAt105 = \<lparr> viewportHeight = 100, length_st = 30, defaultHeight = 10,
                        visibleIndexTop = 10, visibleLength = 11, paddingTop = 100,
                        paddingBottom = Fin 90, scrollTop = 105, heights = Map.empty,
                        totalHeight = 0, visibleIndicesCalculated = True,
                        notifications = 1 \<rparr>"
  by (simp add: thirtyItemsAt105_def evaluation)

lemma twoItemsMeasured_eq:
  "twoItemsMeasured = \<lparr> viewportHeight = 10, length_st = 2, defaultHeight = 10,
                        visibleIndexTop = 0, visibleLength = 1, paddingTop = 0,
                        paddingBottom = Fin 10, scrollTop = 0, heights = [0 \<mapsto> 30],
                        totalHeight = 40, visibleIndicesCalculated = True,
                        notifications = 4 \<rparr>"
  by (simp add: twoItemsMeasured_def evaluation)

lemma tenItemsBuilt_eq:
  "tenItemsBuilt = \<lparr> viewportHeight = 50, length_st = 10, defaultHeight = 10,
                     visibleIndexTop = 0, visibleLength = 5, paddingTop = 0,
                     paddingBottom = Fin 50, scrollTop = 0, heights = Map.empty,
                     totalHeight = 100, visibleIndicesCalculated = True,
                     notifications = 3 \<rparr>"
  by (simp add: tenItemsBuilt_def evaluation)

lemma threeItems_eq:
  "threeItems = \<lparr> viewportHeight = 50, length_st = 3, defaultHeight = 10,
                  visibleIndexTop = 0, visibleLength = 3, paddingTop = 0,
                  paddingBottom = Fin 0, scrollTop = 0, heights = Map.empty,
                  totalHeight = 30, visibleIndicesCalculated = False,
                  notifications = 2 \<rparr>"
  by (simp add: threeItems_def evaluation)

section \<open>The constructor and its options\<close>

text \<open>
  C2. The claim: a state constructed with the option \<open>scrollTop(v)\<close> has \<open>scrollTop = v\<close>.
  The constructor runs the options first and assigns \<open>this.scrollTop = 0\<close> afterwards, so
  whatever the option stored is overwritten: constructed with \<open>scrollTop(120)\<close>, the state
  has \<open>scrollTop = 0\<close>, whereas the option \<open>defaultHeight(100)\<close> beside it survives.
\<close>

theorem scrollTop_option_overwritten:
  "scrollTop (new_state [defaultHeight_opt 100, scrollTop_opt 120]) = 0 \<and>
   defaultHeight (new_state [defaultHeight_opt 100, scrollTop_opt 120]) = 100"
  by (simp add: new_state_def defaultHeight_opt_def scrollTop_opt_def)

section \<open>The worked example\<close>

text \<open>
  C4, as amended. A fresh state with \<open>length = 1000\<close>, \<open>viewportHeight = 400\<close>,
  \<open>defaultHeight = 100\<close>, \<open>scrollTop = 120\<close> and no measured heights: the full computation
  gives \<open>visibleIndexTop = 1\<close>, \<open>visibleLength = 5\<close>, \<open>paddingTop = 100\<close> and
  \<open>paddingBottom = 99400\<close>, which is \<open>(length - visibleIndexTop - visibleLength) * defaultHeight\<close>
  \<open>= 994 * 100\<close>.
\<close>

theorem worked_example_scroll_120:
  "window (calculateVisibleIndices (assigned 1000 400 100 120)) = (1, 5, 100, Fin 99400) \<and>
   paddingBottom (calculateVisibleIndices (assigned 1000 400 100 120)) =
     Fin (of_int (length_st (calculateVisibleIndices (assigned 1000 400 100 120))
                  - visibleIndexTop (calculateVisibleIndices (assigned 1000 400 100 120))
                  - visibleLength (calculateVisibleIndices (assigned 1000 400 100 120)))
          * defaultHeight (calculateVisibleIndices (assigned 1000 400 100 120)))"
  by (simp add: assigned_def new_state_def calculateVisibleIndices_def Let_def
      calcVisibleLength_def walkDown.simps visibleLoop.simps getItemHeight_def
      getItemRangeHeight_def handleChange_def window_def rangeLoop_unmeasured)

text \<open>
  C4, as stated: \<open>paddingBottom = 89400\<close>. The code computes 99400 on this input.
\<close>

theorem worked_example_paddingBottom_not_89400:
  "paddingBottom (calculateVisibleIndices (assigned 1000 400 100 120)) \<noteq> Fin 89400"
  by (simp add: assigned_def new_state_def calculateVisibleIndices_def Let_def
      calcVisibleLength_def walkDown.simps visibleLoop.simps getItemHeight_def
      getItemRangeHeight_def handleChange_def window_def rangeLoop_unmeasured)

section \<open>Frame properties\<close>

text \<open>
  C9. For an index strictly greater than \<open>visibleIndexTop + visibleLength - 1\<close>,
  \<open>updateHeightAtIndex\<close> changes \<open>paddingBottom\<close> and \<open>totalHeight\<close> by the height delta
  (new height minus the item's previous effective height) and leaves \<open>visibleIndexTop\<close>,
  \<open>visibleLength\<close>, \<open>paddingTop\<close>, \<open>scrollTop\<close>, \<open>viewportHeight\<close>, \<open>length\<close> (and
  \<open>defaultHeight\<close>) unchanged.
\<close>

theorem below_window_height_update_frame:
  assumes "index > visibleIndexTop s + visibleLength s - 1"
  shows "visibleIndexTop (updateHeightAtIndex index height s) = visibleIndexTop s \<and>
         visibleLength (updateHeightAtIndex index height s) = visibleLength s \<and>
         paddingTop (updateHeightAtIndex index height s) = paddingTop s \<and>
         scrollTop (updateHeightAtIndex index height s) = scrollTop s \<and>
         viewportHeight (updateHeightAtIndex index height s) = viewportHeight s \<and>
         length_st (updateHeightAtIndex index height s) = length_st s \<and>
         defaultHeight (updateHeightAtIndex index height s) = defaultHeight s \<and>
         paddingBottom (updateHeightAtIndex index height s) =
           js_plus (js_minus (paddingBottom s) (getItemHeight s index)) height \<and>
         totalHeight (updateHeightAtIndex index height s) =
           totalHeight s - getItemHeight s index + height"
  using assms by (simp add: updateHeightAtIndex_def Let_def handleChange_def)

theorem below_window_height_update_frame_witness:
  "8 > visibleIndexTop tenItems + visibleLength tenItems - 1 \<and>
   window (updateHeightAtIndex 8 25 tenItems) = (2, 5, 20, Fin 45) \<and>
   scrollTop (updateHeightAtIndex 8 25 tenItems) = 20 \<and>
   viewportHeight (updateHeightAtIndex 8 25 tenItems) = 50 \<and>
   length_st (updateHeightAtIndex 8 25 tenItems) = 10 \<and>
   totalHeight (updateHeightAtIndex 8 25 tenItems) = totalHeight tenItems + 15"
proof -
  have h: "8 > visibleIndexTop tenItems + visibleLength tenItems - 1"
    by (simp add: tenItems_eq)
  show ?thesis
    using h below_window_height_update_frame [OF h, of 25]
    by (simp add: window_def) (simp add: tenItems_eq getItemHeight_def)
qed

text \<open>
  C10. For a new length strictly greater than the current one, \<open>updateLength\<close> leaves
  \<open>visibleIndexTop\<close>, \<open>paddingTop\<close> and \<open>scrollTop\<close> unchanged (and with them
  \<open>viewportHeight\<close>, \<open>defaultHeight\<close>, the measured heights and the flag of the first
  computation): only \<open>length\<close>, \<open>totalHeight\<close>, \<open>visibleLength\<close> and \<open>paddingBottom\<close> may
  change.
\<close>

theorem updateLength_growth_frame:
  assumes "l > length_st s"
  shows "visibleIndexTop (updateLength l s) = visibleIndexTop s \<and>
         paddingTop (updateLength l s) = paddingTop s \<and>
         scrollTop (updateLength l s) = scrollTop s \<and>
         viewportHeight (updateLength l s) = viewportHeight s \<and>
         defaultHeight (updateLength l s) = defaultHeight s \<and>
         heights (updateLength l s) = heights s \<and>
         visibleIndicesCalculated (updateLength l s) = visibleIndicesCalculated s"
  using assms by (simp add: updateLength_def Let_def handleChange_def)

theorem updateLength_growth_frame_witness:
  "12 > length_st tenItems \<and>
   visibleIndexTop (updateLength 12 tenItems) = 2 \<and>
   paddingTop (updateLength 12 tenItems) = 20 \<and>
   scrollTop (updateLength 12 tenItems) = 20"
proof -
  have h: "12 > length_st tenItems"
    by (simp add: tenItems_eq)
  show ?thesis
    using h updateLength_growth_frame [OF h] by (simp add: tenItems_eq)
qed

section \<open>Calls with the current value\<close>

text \<open>
  C3, as amended. \<open>updateViewportHeight\<close>, \<open>updateLength\<close> and (after the first full
  computation) \<open>updateScrollPosition\<close>, called with the current value of their field,
  return the state unchanged: no field changes and no notification is requested.
  \<open>updateHeightAtIndex\<close> has no such guard. Whatever the height, it requests a notification
  and leaves \<open>visibleIndexTop\<close>, \<open>viewportHeight\<close>, \<open>length\<close> and \<open>defaultHeight\<close>
  unchanged; for an index that is not above the window it leaves \<open>paddingTop\<close> and
  \<open>scrollTop\<close> unchanged, and for an index below the window \<open>visibleLength\<close> as well.
  Called with the item's current effective height \<open>h\<close>:
  \<^item> for an index inside the window, \<open>visibleLength\<close> becomes what \<open>calcVisibleLength\<close>
    gives on the state before (so it is unchanged when it was up to date), and
    \<open>paddingBottom\<close> is derived anew by \<open>calcPaddingBottom\<close> from that window (with
    \<open>totalHeight\<close> computed as \<open>totalHeight - h + h\<close>, the same value for whole numbers),
    which can change it;
  \<^item> for an index above the window, \<open>paddingTop\<close> is computed as \<open>paddingTop - h + h\<close>,
    the same value for whole numbers; \<open>scrollTop\<close> then stays if \<open>paddingTop\<close> does not
    exceed it, and \<open>visibleLength\<close> becomes what \<open>calcVisibleLength\<close> gives on the state
    before;
  \<^item> for an index below the window, \<open>paddingBottom\<close> is computed as
    \<open>paddingBottom - h + h\<close>, the same value for whole numbers.
\<close>

theorem guarded_noop_stability:
  "updateViewportHeight (viewportHeight s) s = s \<and>
   updateLength (length_st s) s = s \<and>
   (visibleIndicesCalculated s \<longrightarrow> updateScrollPosition (scrollTop s) s = s) \<and>
   notifications (updateHeightAtIndex index height s) = notifications s + 1 \<and>
   visibleIndexTop (updateHeightAtIndex index height s) = visibleIndexTop s \<and>
   viewportHeight (updateHeightAtIndex index height s) = viewportHeight s \<and>
   length_st (updateHeightAtIndex index height s) = length_st s \<and>
   defaultHeight (updateHeightAtIndex index height s) = defaultHeight s \<and>
   (visibleIndexTop s \<le> index \<longrightarrow>
      paddingTop (updateHeightAtIndex index height s) = paddingTop s \<and>
      scrollTop (updateHeightAtIndex index height s) = scrollTop s) \<and>
   (visibleIndexTop s + visibleLength s - 1 < index \<longrightarrow>
      visibleLength (updateHeightAtIndex index height s) = visibleLength s) \<and>
   (visibleIndexTop s \<le> index \<and> index \<le> visibleIndexTop s + visibleLength s - 1 \<longrightarrow>
      visibleLength (updateHeightAtIndex index (getItemHeight s index) s)
        = calcVisibleLength s) \<and>
   (visibleIndexTop s \<le> index \<and> index \<le> visibleIndexTop s + visibleLength s - 1 \<and>
    safeWhole (totalHeight s) \<and> safeWhole (getItemHeight s index) \<longrightarrow>
      paddingBottom (updateHeightAtIndex index (getItemHeight s index) s)
        = calcPaddingBottom (s\<lparr>visibleLength := calcVisibleLength s\<rparr>)
            (visibleIndexTop s + calcVisibleLength s - 1)
            (visibleIndexTop s + visibleLength s - 1)) \<and>
   (safeWhole (paddingTop s) \<and> safeWhole (getItemHeight s index) \<longrightarrow>
      paddingTop (updateHeightAtIndex index (getItemHeight s index) s) = paddingTop s) \<and>
   (safeWhole (paddingTop s) \<and> safeWhole (getItemHeight s index) \<and>
    paddingTop s \<le> scrollTop s \<longrightarrow>
      scrollTop (updateHeightAtIndex index (getItemHeight s index) s) = scrollTop s \<and>
      (index \<le> visibleIndexTop s + visibleLength s - 1 \<longrightarrow>
         visibleLength (updateHeightAtIndex index (getItemHeight s index) s)
           = calcVisibleLength s)) \<and>
   (visibleIndexTop s + visibleLength s - 1 < index \<and> paddingBottom s = Fin p \<and>
    safeWhole p \<and> safeWhole (getItemHeight s index) \<longrightarrow>
      paddingBottom (updateHeightAtIndex index (getItemHeight s index) s) = paddingBottom s)"
proof -
  let ?h = "getItemHeight s index"
  let ?s2 = "s\<lparr>heights := (heights s)(index \<mapsto> ?h), totalHeight := totalHeight s - ?h + ?h\<rparr>"
  have guards: "updateViewportHeight (viewportHeight s) s = s"
    "updateLength (length_st s) s = s"
    "visibleIndicesCalculated s \<longrightarrow> updateScrollPosition (scrollTop s) s = s"
    by (simp_all add: updateViewportHeight_def updateLength_def updateScrollPosition_def Let_def)
  have kept: "notifications (updateHeightAtIndex index height s) = notifications s + 1"
    "visibleIndexTop (updateHeightAtIndex index height s) = visibleIndexTop s"
    "viewportHeight (updateHeightAtIndex index height s) = viewportHeight s"
    "length_st (updateHeightAtIndex index height s) = length_st s"
    "defaultHeight (updateHeightAtIndex index height s) = defaultHeight s"
    by (simp_all add: updateHeightAtIndex_def Let_def handleChange_def)
  have notAbove: "visibleIndexTop s \<le> index \<longrightarrow>
      paddingTop (updateHeightAtIndex index height s) = paddingTop s \<and>
      scrollTop (updateHeightAtIndex index height s) = scrollTop s"
    by (simp add: updateHeightAtIndex_def Let_def handleChange_def)
  have below: "visibleIndexTop s + visibleLength s - 1 < index \<longrightarrow>
      visibleLength (updateHeightAtIndex index height s) = visibleLength s"
    by (simp add: updateHeightAtIndex_def Let_def handleChange_def)
  have same: "calcVisibleLength ?s2 = calcVisibleLength s"
    by (rule calcVisibleLength_same_height)
  have inside: "visibleIndexTop s \<le> index \<and> index \<le> visibleIndexTop s + visibleLength s - 1 \<longrightarrow>
      visibleLength (updateHeightAtIndex index ?h s) = calcVisibleLength s"
    using same by (simp add: updateHeightAtIndex_def Let_def handleChange_def)
  have "calcPaddingBottom (?s2\<lparr>visibleLength := calcVisibleLength s\<rparr>) b prev
          = calcPaddingBottom (s\<lparr>visibleLength := calcVisibleLength s\<rparr>) b prev" for b prev
    by (rule calcPaddingBottom_cong) (auto simp: getItemHeight_def split: option.splits)
  then have insideBottom:
    "visibleIndexTop s \<le> index \<and> index \<le> visibleIndexTop s + visibleLength s - 1 \<longrightarrow>
      paddingBottom (updateHeightAtIndex index ?h s)
        = calcPaddingBottom (s\<lparr>visibleLength := calcVisibleLength s\<rparr>)
            (visibleIndexTop s + calcVisibleLength s - 1)
            (visibleIndexTop s + visibleLength s - 1)"
    using same by (simp add: updateHeightAtIndex_def Let_def handleChange_def)
  have top: "paddingTop (updateHeightAtIndex index ?h s) = paddingTop s"
    by (simp add: updateHeightAtIndex_def Let_def handleChange_def)
  have scroll: "paddingTop s \<le> scrollTop s \<longrightarrow>
      scrollTop (updateHeightAtIndex index ?h s) = scrollTop s \<and>
      (index \<le> visibleIndexTop s + visibleLength s - 1 \<longrightarrow>
         visibleLength (updateHeightAtIndex index ?h s) = calcVisibleLength s)"
  proof
    assume le: "paddingTop s \<le> scrollTop s"
    then have a: "advanceScrollTop (paddingTop s) (scrollTop s) = scrollTop s"
      by (simp add: advanceScrollTop_eq)
    have "?s2\<lparr>paddingTop := paddingTop s, scrollTop := scrollTop s\<rparr> = ?s2"
      by simp
    with a same show "scrollTop (updateHeightAtIndex index ?h s) = scrollTop s \<and>
      (index \<le> visibleIndexTop s + visibleLength s - 1 \<longrightarrow>
         visibleLength (updateHeightAtIndex index ?h s) = calcVisibleLength s)"
      by (simp add: updateHeightAtIndex_def Let_def handleChange_def)
  qed
  have bottom: "visibleIndexTop s + visibleLength s - 1 < index \<and> paddingBottom s = Fin p \<longrightarrow>
      paddingBottom (updateHeightAtIndex index ?h s) = paddingBottom s"
    by (simp add: updateHeightAtIndex_def Let_def handleChange_def)
  from guards kept notAbove below inside insideBottom top scroll bottom show ?thesis
    by blast
qed

theorem guarded_noop_stability_witness:
  "visibleIndicesCalculated tenItems \<and>
   updateScrollPosition (scrollTop tenItems) tenItems = tenItems \<and>
   updateViewportHeight (viewportHeight tenItems) tenItems = tenItems \<and>
   updateLength (length_st tenItems) tenItems = tenItems \<and>
   getItemHeight tenItems 3 = 10 \<and>
   visibleIndexTop tenItems \<le> 3 \<and>
   3 \<le> visibleIndexTop tenItems + visibleLength tenItems - 1 \<and>
   notifications (updateHeightAtIndex 3 10 tenItems) = 2 \<and>
   visibleIndexTop (updateHeightAtIndex 3 10 tenItems) = 2 \<and>
   paddingTop (updateHeightAtIndex 3 10 tenItems) = 20 \<and>
   scrollTop (updateHeightAtIndex 3 10 tenItems) = 20 \<and>
   visibleLength (updateHeightAtIndex 3 10 tenItems) = 5 \<and>
   safeWhole (totalHeight tenItems) \<and> safeWhole (getItemHeight tenItems 3) \<and>
   paddingBottom (updateHeightAtIndex 3 10 tenItems) = Fin 30"
proof -
  have h: "visibleIndicesCalculated tenItems" "getItemHeight tenItems 3 = 10"
    "visibleIndexTop tenItems \<le> 3"
    "3 \<le> visibleIndexTop tenItems + visibleLength tenItems - 1"
    by (simp_all add: tenItems_eq getItemHeight_def)
  have w: "safeWhole (totalHeight tenItems)" "safeWhole (getItemHeight tenItems 3)"
    by (simp_all add: tenItems_eq getItemHeight_def safeWhole_def)
  have v: "notifications tenItems = 1" "visibleIndexTop tenItems = 2" "paddingTop tenItems = 20"
    "scrollTop tenItems = 20" "calcVisibleLength tenItems = 5"
    "calcPaddingBottom (tenItems\<lparr>visibleLength := calcVisibleLength tenItems\<rparr>)
       (visibleIndexTop tenItems + calcVisibleLength tenItems - 1)
       (visibleIndexTop tenItems + visibleLength tenItems - 1) = Fin 30"
    by (simp_all add: tenItems_eq evaluation)
  from guarded_noop_stability [of tenItems 3 10] h w
  have "updateViewportHeight (viewportHeight tenItems) tenItems = tenItems \<and>
        updateLength (length_st tenItems) tenItems = tenItems \<and>
        updateScrollPosition (scrollTop tenItems) tenItems = tenItems \<and>
        notifications (updateHeightAtIndex 3 10 tenItems) = notifications tenItems + 1 \<and>
        visibleIndexTop (updateHeightAtIndex 3 10 tenItems) = visibleIndexTop tenItems \<and>
        paddingTop (updateHeightAtIndex 3 10 tenItems) = paddingTop tenItems \<and>
        scrollTop (updateHeightAtIndex 3 10 tenItems) = scrollTop tenItems \<and>
        visibleLength (updateHeightAtIndex 3 10 tenItems) = calcVisibleLength tenItems \<and>
        paddingBottom (updateHeightAtIndex 3 10 tenItems)
          = calcPaddingBottom (tenItems\<lparr>visibleLength := calcVisibleLength tenItems\<rparr>)
              (visibleIndexTop tenItems + calcVisibleLength tenItems - 1)
              (visibleIndexTop tenItems + visibleLength tenItems - 1)"
    by simp
  with h w v show ?thesis by simp
qed

text \<open>
  C3, as stated, for \<open>updateHeightAtIndex\<close>: item 0 of the two-item list has the effective
  height 30; updating it to 30 again raises \<open>paddingBottom\<close> from 10 to 20 (the
  average-height floor of \<open>calcPaddingBottom\<close>) and requests a notification.
\<close>

theorem same_height_update_not_noop:
  "getItemHeight twoItemsMeasured 0 = 30 \<and>
   paddingBottom twoItemsMeasured = Fin 10 \<and>
   paddingBottom (updateHeightAtIndex 0 30 twoItemsMeasured) = Fin 20 \<and>
   notifications (updateHeightAtIndex 0 30 twoItemsMeasured) = notifications twoItemsMeasured + 1"
  by (simp add: twoItemsMeasured_eq evaluation)

section \<open>Height updates above the window\<close>




section \<open>Incremental updates against the full computation\<close>

text \<open>
  C1. The claim: after every step of every sequence of mutations, the incrementally
  updated state and the state recomputed in full after each step agree on
  \<open>visibleIndexTop\<close>, \<open>visibleLength\<close>, \<open>paddingTop\<close> and \<open>paddingBottom\<close>. On the ten-item
  list, measuring item 5 (just below the window \<open>[0, 5)\<close>) at 30 keeps the two states in
  agreement, with \<open>paddingBottom = 70\<close>. Scrolling to 10 then moves the window to
  \<open>[1, 6)\<close>: item 5, of height 30, enters it. The scrolled-down branch of
  \<open>calcPaddingBottom\<close> subtracts the heights of the indices from the previous bottom index
  to the new one minus one, that is the height 10 of item 4, and leaves
  \<open>paddingBottom = 60\<close>; the full computation gives the height of the items 6 to 9, 40.
\<close>

theorem scrolled_down_padding_diverges:
  "window (runIncremental tenItemsBuilt [UpdateHeightAtIndex 5 30]) = (0, 5, 0, Fin 70) \<and>
   window (runRecomputed tenItemsBuilt [UpdateHeightAtIndex 5 30]) = (0, 5, 0, Fin 70) \<and>
   window (runIncremental tenItemsBuilt [UpdateHeightAtIndex 5 30, UpdateScrollPosition 10])
     = (1, 5, 10, Fin 60) \<and>
   window (runRecomputed tenItemsBuilt [UpdateHeightAtIndex 5 30, UpdateScrollPosition 10])
     = (1, 5, 10, Fin 40)"
  by (simp add: tenItemsBuilt_eq evaluation)

text \<open>
  A height update above the window diverges as well: with thirty items scrolled to 105,
  measuring item 0 at 5 leaves the incremental state at \<open>visibleIndexTop = 10\<close>,
  \<open>visibleLength = 11\<close>, \<open>paddingTop = 95\<close>, while the full computation gives
  \<open>visibleIndexTop = 11\<close>, \<open>visibleLength = 10\<close>, \<open>paddingTop = 105\<close>.
\<close>

lemma stale_top_index_after_height_update:
  "window (runIncremental thirtyItemsAt105 [UpdateHeightAtIndex 0 5]) = (10, 11, 95, Fin 90) \<and>
   window (runRecomputed thirtyItemsAt105 [UpdateHeightAtIndex 0 5]) = (11, 10, 105, Fin 90)"
  by (simp add: thirtyItemsAt105_eq evaluation)

text \<open>
  Where the two do agree: on a list without measured heights (every item has the positive
  estimated height) in whole pixels, after the first full computation, every admissible run of
  \<open>calculateVisibleIndices\<close>, \<open>updateViewportHeight\<close>, \<open>updateLength\<close> and
  \<open>updateScrollPosition\<close> leaves the incrementally updated state and the state recomputed
  after each step with the same \<open>visibleIndexTop\<close>, \<open>visibleLength\<close>, \<open>paddingTop\<close> and
  \<open>paddingBottom\<close>. Every prefix of an admissible run is admissible, so they agree after
  every step.
\<close>

theorem unmeasured_runs_agree:
  assumes "unmeasured s" and "wholePixels s"
    and "admissibleRun (calculateVisibleIndices s) ms"
  shows "window (runIncremental (calculateVisibleIndices s) ms)
           = window (runRecomputed (calculateVisibleIndices s) ms)"
proof -
  have "settled (calculateVisibleIndices s)"
    using assms(1) by (rule settled_calculateVisibleIndices)
  then show ?thesis
    using assms(3) by (intro runs_agree) simp_all
qed

theorem unmeasured_runs_agree_witness:
  "unmeasured (assigned 10 50 10 20) \<and> wholePixels (assigned 10 50 10 20) \<and>
   admissibleRun tenItems
     [UpdateScrollPosition 35, UpdateViewportHeight 31, UpdateLength 12, UpdateLength 7] \<and>
   window (runIncremental tenItems
     [UpdateScrollPosition 35, UpdateViewportHeight 31, UpdateLength 12, UpdateLength 7])
   = window (runRecomputed tenItems
     [UpdateScrollPosition 35, UpdateViewportHeight 31, UpdateLength 12, UpdateLength 7]) \<and>
   window (runIncremental tenItems
     [UpdateScrollPosition 35, UpdateViewportHeight 31, UpdateLength 12, UpdateLength 7])
   = (3, 4, 30, Fin 0)"
proof -
  let ?ms = "[UpdateScrollPosition 35, UpdateViewportHeight 31, UpdateLength 12, UpdateLength 7]"
  have u: "unmeasured (assigned 10 50 10 20)"
    by (simp add: unmeasured_def assigned_def new_state_def)
  have w: "wholePixels (assigned 10 50 10 20)"
    by (simp add: wholePixels_def safeWhole_def assigned_def new_state_def)
  have a: "admissibleRun tenItems ?ms"
    by (simp add: tenItems_eq evaluation safeWhole_def)
  from unmeasured_runs_agree [OF u w a [unfolded tenItems_def]]
  have e: "window (runIncremental tenItems ?ms) = window (runRecomputed tenItems ?ms)"
    unfolding tenItems_def .
  have v: "window (runIncremental tenItems ?ms) = (3, 4, 30, Fin 0)"
    by (simp add: tenItems_eq evaluation)
  from u w a e v show ?thesis by blast
qed

section \<open>The end of the list\<close>

text \<open>
  C5. The claim: whenever the window's last index is \<open>length - 1\<close>, \<open>paddingBottom\<close> is 0.
  Three items, all visible: the window ends at index 2 \<open>= length - 1\<close> and \<open>paddingBottom\<close>
  is 0. Recording a height of 25 for index 3, past the end of the list, takes the
  below-window branch of \<open>updateHeightAtIndex\<close>: the window still ends at the last index,
  and \<open>paddingBottom\<close> is 25.
\<close>

theorem out_of_range_height_breaks_clamp:
  "visibleIndexTop threeItems + visibleLength threeItems - 1 = length_st threeItems - 1 \<and>
   paddingBottom threeItems = Fin 0 \<and>
   visibleIndexTop (updateHeightAtIndex 3 25 threeItems)
     + visibleLength (updateHeightAtIndex 3 25 threeItems) - 1
     = length_st (updateHeightAtIndex 3 25 threeItems) - 1 \<and>
   paddingBottom (updateHeightAtIndex 3 25 threeItems) = Fin 25"
  by (simp add: threeItems_eq evaluation)

text \<open>
  The paths that do keep the end-of-list clamp: after \<open>calculateVisibleIndices\<close>, and
  after each operation that ends in \<open>calcPaddingBottom\<close> (\<open>updateViewportHeight\<close> with a
  new height, \<open>updateScrollPosition\<close> with a new offset after the first full computation,
  \<open>updateHeightAtIndex\<close> at an index that is not below the window), a window whose last
  index is \<open>length - 1\<close> has \<open>paddingBottom = 0\<close>, from any state.
\<close>

theorem end_of_list_clamp:
  "(visibleIndexTop (calculateVisibleIndices s) + visibleLength (calculateVisibleIndices s) - 1
      = length_st (calculateVisibleIndices s) - 1 \<longrightarrow>
    paddingBottom (calculateVisibleIndices s) = Fin 0) \<and>
   (height \<noteq> viewportHeight s \<and>
    visibleIndexTop (updateViewportHeight height s)
      + visibleLength (updateViewportHeight height s) - 1
      = length_st (updateViewportHeight height s) - 1 \<longrightarrow>
    paddingBottom (updateViewportHeight height s) = Fin 0) \<and>
   (visibleIndicesCalculated s \<and> sTop \<noteq> scrollTop s \<and>
    visibleIndexTop (updateScrollPosition sTop s)
      + visibleLength (updateScrollPosition sTop s) - 1
      = length_st (updateScrollPosition sTop s) - 1 \<longrightarrow>
    paddingBottom (updateScrollPosition sTop s) = Fin 0) \<and>
   (index \<le> visibleIndexTop s + visibleLength s - 1 \<and>
    visibleIndexTop (updateHeightAtIndex index h s)
      + visibleLength (updateHeightAtIndex index h s) - 1
      = length_st (updateHeightAtIndex index h s) - 1 \<longrightarrow>
    paddingBottom (updateHeightAtIndex index h s) = Fin 0)"
proof (intro conjI impI)
  assume "visibleIndexTop (calculateVisibleIndices s)
            + visibleLength (calculateVisibleIndices s) - 1
          = length_st (calculateVisibleIndices s) - 1"
  then show "paddingBottom (calculateVisibleIndices s) = Fin 0"
    by (simp add: calculateVisibleIndices_def Let_def handleChange_def getItemRangeHeight_def
        rangeLoop_above_end split: if_splits prod.splits)
next
  assume a: "height \<noteq> viewportHeight s \<and>
    visibleIndexTop (updateViewportHeight height s)
      + visibleLength (updateViewportHeight height s) - 1
      = length_st (updateViewportHeight height s) - 1"
  with updateViewportHeight_finish [of height s]
  show "paddingBottom (updateViewportHeight height s) = Fin 0"
    by (metis finish_at_end)
next
  assume a: "visibleIndicesCalculated s \<and> sTop \<noteq> scrollTop s \<and>
    visibleIndexTop (updateScrollPosition sTop s)
      + visibleLength (updateScrollPosition sTop s) - 1
      = length_st (updateScrollPosition sTop s) - 1"
  with updateScrollPosition_finish [of s sTop]
  show "paddingBottom (updateScrollPosition sTop s) = Fin 0"
    by (metis finish_at_end)
next
  assume a: "index \<le> visibleIndexTop s + visibleLength s - 1 \<and>
    visibleIndexTop (updateHeightAtIndex index h s)
      + visibleLength (updateHeightAtIndex index h s) - 1
      = length_st (updateHeightAtIndex index h s) - 1"
  with updateHeightAtIndex_finish [of index s h]
  show "paddingBottom (updateHeightAtIndex index h s) = Fin 0"
    by (metis finish_at_end)
qed


theorem end_of_list_clamp_witness:
  "visibleIndexTop (calculateVisibleIndices threeItems)
     + visibleLength (calculateVisibleIndices threeItems) - 1
     = length_st (calculateVisibleIndices threeItems) - 1 \<and>
   paddingBottom (calculateVisibleIndices threeItems) = Fin 0 \<and>
   60 \<noteq> viewportHeight threeItems \<and>
   visibleIndexTop (updateViewportHeight 60 threeItems)
     + visibleLength (updateViewportHeight 60 threeItems) - 1
     = length_st (updateViewportHeight 60 threeItems) - 1 \<and>
   paddingBottom (updateViewportHeight 60 threeItems) = Fin 0 \<and>
   1 \<le> visibleIndexTop threeItems + visibleLength threeItems - 1 \<and>
   visibleIndexTop (updateHeightAtIndex 1 12 threeItems)
     + visibleLength (updateHeightAtIndex 1 12 threeItems) - 1
     = length_st (updateHeightAtIndex 1 12 threeItems) - 1 \<and>
   paddingBottom (updateHeightAtIndex 1 12 threeItems) = Fin 0"
proof -
  have h: "visibleIndexTop (calculateVisibleIndices threeItems)
     + visibleLength (calculateVisibleIndices threeItems) - 1
     = length_st (calculateVisibleIndices threeItems) - 1"
    "60 \<noteq> viewportHeight threeItems"
    "visibleIndexTop (updateViewportHeight 60 threeItems)
     + visibleLength (updateViewportHeight 60 threeItems) - 1
     = length_st (updateViewportHeight 60 threeItems) - 1"
    "1 \<le> visibleIndexTop threeItems + visibleLength threeItems - 1"
    "visibleIndexTop (updateHeightAtIndex 1 12 threeItems)
     + visibleLength (updateHeightAtIndex 1 12 threeItems) - 1
     = length_st (updateHeightAtIndex 1 12 threeItems) - 1"
    by (simp_all add: threeItems_eq evaluation)
  show ?thesis
    using h end_of_list_clamp [of threeItems 60 0 1 12] by blast
qed

section \<open>The window bounds\<close>

text \<open>
  C7. In every state reached from a constructed state by any sequence of the five
  operations (whatever their arguments, so in particular for non-negative ones), if
  \<open>length > 0\<close> then \<open>0 \<le> visibleIndexTop\<close> and
  \<open>visibleIndexTop + visibleLength \<le> length\<close>. Since every prefix of a sequence is a
  sequence, this holds after each operation.
\<close>

theorem window_bounds_invariant:
  assumes "0 < length_st (runIncremental (new_state options) ms)"
  shows "0 \<le> visibleIndexTop (runIncremental (new_state options) ms) \<and>
         visibleIndexTop (runIncremental (new_state options) ms)
           + visibleLength (runIncremental (new_state options) ms)
           \<le> length_st (runIncremental (new_state options) ms)"
  using assms windowInside_runIncremental [OF windowInside_new_state, of options ms]
  by (simp add: windowInside_def)


theorem window_bounds_invariant_witness:
  "0 < length_st threeItems \<and>
   0 \<le> visibleIndexTop threeItems \<and>
   visibleIndexTop threeItems + visibleLength threeItems \<le> length_st threeItems"
proof -
  have h: "0 < length_st threeItems"
    by (simp add: threeItems_eq)
  from window_bounds_invariant [OF h [unfolded threeItems_def]]
  have "0 \<le> visibleIndexTop threeItems \<and>
        visibleIndexTop threeItems + visibleLength threeItems \<le> length_st threeItems"
    unfolding threeItems_def .
  with h show ?thesis by simp
qed

section \<open>The average-height floor\<close>

text \<open>
  C6, as amended. After an operation that sets \<open>paddingBottom\<close> through
  \<open>calcPaddingBottom\<close> (\<open>updateViewportHeight\<close> with a new height, \<open>updateScrollPosition\<close>
  with a new offset after the first full computation, \<open>updateHeightAtIndex\<close> at an index
  that is not below the window), \<open>paddingBottom\<close> is at least the number of items below the
  window times \<open>totalHeight / length\<close>, for every state with \<open>length > 0\<close> whose
  \<open>paddingBottom\<close> is not \<open>NaN\<close>. \<open>calculateVisibleIndices\<close>, \<open>updateLength\<close> and the
  below-window branch of \<open>updateHeightAtIndex\<close> set \<open>paddingBottom\<close> without this floor.
\<close>

theorem average_floor_after_calcPaddingBottom:
  assumes "0 < length_st s" and "paddingBottom s \<noteq> NaN"
  shows "(height \<noteq> viewportHeight s \<longrightarrow>
            js_ge (paddingBottom (updateViewportHeight height s))
                  (averageFloor (updateViewportHeight height s))) \<and>
         (visibleIndicesCalculated s \<and> sTop \<noteq> scrollTop s \<longrightarrow>
            js_ge (paddingBottom (updateScrollPosition sTop s))
                  (averageFloor (updateScrollPosition sTop s))) \<and>
         (index \<le> visibleIndexTop s + visibleLength s - 1 \<longrightarrow>
            js_ge (paddingBottom (updateHeightAtIndex index h s))
                  (averageFloor (updateHeightAtIndex index h s)))"
proof (intro conjI impI)
  assume "height \<noteq> viewportHeight s"
  from updateViewportHeight_finish [OF this] assms
  show "js_ge (paddingBottom (updateViewportHeight height s))
              (averageFloor (updateViewportHeight height s))"
    by (metis finish_floor less_irrefl)
next
  assume "visibleIndicesCalculated s \<and> sTop \<noteq> scrollTop s"
  then have "visibleIndicesCalculated s" "sTop \<noteq> scrollTop s" by simp_all
  from updateScrollPosition_finish [OF this] assms
  show "js_ge (paddingBottom (updateScrollPosition sTop s))
              (averageFloor (updateScrollPosition sTop s))"
    by (metis finish_floor less_irrefl)
next
  assume "index \<le> visibleIndexTop s + visibleLength s - 1"
  from updateHeightAtIndex_finish [OF this, of h] assms
  show "js_ge (paddingBottom (updateHeightAtIndex index h s))
              (averageFloor (updateHeightAtIndex index h s))"
    by (metis finish_floor less_irrefl)
qed

theorem average_floor_after_calcPaddingBottom_witness:
  "0 < length_st twoItemsMeasured \<and> paddingBottom twoItemsMeasured \<noteq> NaN \<and>
   30 \<noteq> viewportHeight twoItemsMeasured \<and>
   visibleIndicesCalculated twoItemsMeasured \<and> 5 \<noteq> scrollTop twoItemsMeasured \<and>
   0 \<le> visibleIndexTop twoItemsMeasured + visibleLength twoItemsMeasured - 1 \<and>
   js_ge (paddingBottom (updateViewportHeight 30 twoItemsMeasured))
         (averageFloor (updateViewportHeight 30 twoItemsMeasured)) \<and>
   js_ge (paddingBottom (updateScrollPosition 5 twoItemsMeasured))
         (averageFloor (updateScrollPosition 5 twoItemsMeasured)) \<and>
   js_ge (paddingBottom (updateHeightAtIndex 0 30 twoItemsMeasured))
         (averageFloor (updateHeightAtIndex 0 30 twoItemsMeasured))"
proof -
  have h: "0 < length_st twoItemsMeasured" "paddingBottom twoItemsMeasured \<noteq> NaN"
    by (simp_all add: twoItemsMeasured_eq)
  have g: "30 \<noteq> viewportHeight twoItemsMeasured"
    "visibleIndicesCalculated twoItemsMeasured \<and> 5 \<noteq> scrollTop twoItemsMeasured"
    "0 \<le> visibleIndexTop twoItemsMeasured + visibleLength twoItemsMeasured - 1"
    by (simp_all add: twoItemsMeasured_eq)
  show ?thesis
    using h g average_floor_after_calcPaddingBottom [OF h, of 30 5 0 30] by blast
qed

text \<open>
  C6, as stated, for \<open>calculateVisibleIndices\<close>: the two-item list has just been recomputed
  in full; one item (of estimated height 10) lies below the window, \<open>paddingBottom\<close> is 10,
  and the floor is \<open>1 * (40 / 2) = 20\<close>.
\<close>

theorem recompute_below_average_floor:
  "0 < length_st twoItemsMeasured \<and>
   paddingBottom twoItemsMeasured = Fin 10 \<and>
   averageFloor twoItemsMeasured = 20 \<and>
   \<not> js_ge (paddingBottom twoItemsMeasured) (averageFloor twoItemsMeasured)"
  by (simp add: twoItemsMeasured_eq averageFloor_def)


end
